theory Spec2Isabelle
  imports Complex_Main "HOL-Library.AList" "HOL-Library.Char_ord" "HOL-Library.Log_Nat"
begin

section \<open>JavaScript values read from and written to the JSON stores\<close>

text \<open>
  The program keeps two documents under \<^verbatim>\<open>~/.pld\<close>: \<^verbatim>\<open>config.json\<close> and
  \<^verbatim>\<open>history.json\<close>. Both are read with \<^verbatim>\<open>JSON.parse\<close> and rewritten whole with
  \<^verbatim>\<open>JSON.stringify\<close>. A JSON value is modelled by the datatype below. An object is its
  member list in insertion order. A number is kept as the text JavaScript prints for it
  (the program never computes with a stored number; only its truthiness and its text are
  read). \<^verbatim>\<open>JSON.parse\<close> reads a literal beyond the range of the doubles, such as
  \<^verbatim>\<open>1e400\<close>, as an infinity, printed \<^verbatim>\<open>Infinity\<close> or \<^verbatim>\<open>-Infinity\<close>.
  The value \<^verbatim>\<open>undefined\<close> is not a JSON value: a JavaScript value that may be
  undefined is a \<open>json option\<close> with \<open>None\<close> for \<^verbatim>\<open>undefined\<close>.
\<close>

datatype json =
    JNull
  | JBool bool
  | JNum string
  | JStr string
  | JArr "json list"
  | JObj "(string \<times> json) list"

type_synonym jsval = "json option"

datatype error = TypeError

text \<open>The three states of a store file: absent, present but not parseable, parsed.\<close>

datatype jfile = Missing | Unparseable | Parsed json

text \<open>
  A write stores the text \<^verbatim>\<open>JSON.stringify(v, null, 2)\<close>. \<open>stringify v\<close> is the document
  that \<^verbatim>\<open>JSON.parse\<close> reads back from that text: \<open>v\<close> itself, except that
  \<^verbatim>\<open>JSON.stringify\<close> writes \<^verbatim>\<open>null\<close> for a number that is not finite, at any depth.
  (No value built from parsed JSON has a callable \<^verbatim>\<open>toJSON\<close> member, and a member
  whose value is undefined is left out where the object is built, see \<open>object\<close> below.)
\<close>

fun stringify :: "json \<Rightarrow> json"
  and stringify_list :: "json list \<Rightarrow> json list"
  and stringify_members :: "(string \<times> json) list \<Rightarrow> (string \<times> json) list" where
  "stringify JNull = JNull"
| "stringify (JBool b) = JBool b"
| "stringify (JNum s) =
     (if s = ''Infinity'' \<or> s = ''-Infinity'' \<or> s = ''NaN'' then JNull else JNum s)"
| "stringify (JStr s) = JStr s"
| "stringify (JArr xs) = JArr (stringify_list xs)"
| "stringify (JObj ms) = JObj (stringify_members ms)"
| "stringify_list [] = []"
| "stringify_list (x # xs) = stringify x # stringify_list xs"
| "stringify_members [] = []"
| "stringify_members ((k, v) # ms) = (k, stringify v) # stringify_members ms"

text \<open>A value that holds, at any depth, no number that is not finite.\<close>

fun finite_numbers :: "json \<Rightarrow> bool"
  and finite_numbers_list :: "json list \<Rightarrow> bool"
  and finite_numbers_members :: "(string \<times> json) list \<Rightarrow> bool" where
  "finite_numbers JNull = True"
| "finite_numbers (JBool b) = True"
| "finite_numbers (JNum s) = (s \<noteq> ''Infinity'' \<and> s \<noteq> ''-Infinity'' \<and> s \<noteq> ''NaN'')"
| "finite_numbers (JStr s) = True"
| "finite_numbers (JArr xs) = finite_numbers_list xs"
| "finite_numbers (JObj ms) = finite_numbers_members ms"
| "finite_numbers_list [] = True"
| "finite_numbers_list (x # xs) = (finite_numbers x \<and> finite_numbers_list xs)"
| "finite_numbers_members [] = True"
| "finite_numbers_members ((k, v) # ms) = (finite_numbers v \<and> finite_numbers_members ms)"

section \<open>History store\<close>

text \<open>
  \<^verbatim>\<open>loadHistory\<close> (index.js 389-399, the first entry point 106-116) returns the parsed
  document when the file exists and parses, and the empty array otherwise.
\<close>

definition loadHistory :: "jfile \<Rightarrow> json" where
  "loadHistory f = (case f of Parsed j \<Rightarrow> j | Missing \<Rightarrow> JArr [] | Unparseable \<Rightarrow> JArr [])"

text \<open>
  \<^verbatim>\<open>splice50\<close> is the statement \<^verbatim>\<open>if (history.length > 50) history.splice(50)\<close>:
  \<^verbatim>\<open>splice(50)\<close> removes every element from index 50 on.
\<close>

definition splice50 :: "'a list \<Rightarrow> 'a list" where
  "splice50 history = (if length history > 50 then take 50 history else history)"

text \<open>
  \<^verbatim>\<open>saveHistory\<close> (index.js 402-413, the first entry point 119-130): load, \<^verbatim>\<open>unshift\<close>
  the entry, cut to 50, rewrite the file with \<^verbatim>\<open>JSON.stringify\<close>. When the stored
  document is not an array, \<^verbatim>\<open>history.unshift\<close> is not a function and the call raises a
  TypeError before anything is written.
\<close>

definition saveHistory :: "json \<Rightarrow> jfile \<Rightarrow> error + jfile" where
  "saveHistory entry f =
     (case loadHistory f of
        JArr history \<Rightarrow> Inr (Parsed (stringify (JArr (splice50 (entry # history)))))
      | _ \<Rightarrow> Inl TypeError)"

section \<open>Reading and writing members\<close>

text \<open>
  Truthiness, as \<^verbatim>\<open>if (v)\<close>, \<^verbatim>\<open>!v\<close>, \<^verbatim>\<open>a || b\<close> and \<^verbatim>\<open>a && b\<close> test it. A number is
  falsy when it is zero (printed \<^verbatim>\<open>0\<close>, also for the negative zero) or not a number.
\<close>

fun truthy :: "json \<Rightarrow> bool" where
  "truthy JNull = False"
| "truthy (JBool b) = b"
| "truthy (JNum s) = (s \<noteq> ''0'' \<and> s \<noteq> ''NaN'')"
| "truthy (JStr s) = (s \<noteq> [])"
| "truthy (JArr xs) = True"
| "truthy (JObj ms) = True"

definition truthy_val :: "jsval \<Rightarrow> bool" where
  "truthy_val v = (case v of None \<Rightarrow> False | Some j \<Rightarrow> truthy j)"

text \<open>
  \<open>js_get v k\<close> is the read \<^verbatim>\<open>v[k]\<close> of a value \<open>v\<close> that is neither null nor
  undefined (every such read of the program stands behind a truthiness test of \<open>v\<close>).
  The keys the program reads are \<^verbatim>\<open>services\<close>, \<^verbatim>\<open>apiKey\<close>, \<^verbatim>\<open>googleDrive\<close>, the
  service names, \<^verbatim>\<open>id\<close>, \<^verbatim>\<open>data\<close>, \<^verbatim>\<open>fileId\<close> and \<^verbatim>\<open>downloadPage\<close>: none is an
  index, \<^verbatim>\<open>length\<close> or an inherited member, so a read of a string, a number, a
  boolean or an array gives \<^verbatim>\<open>undefined\<close>.
\<close>

fun js_get :: "json \<Rightarrow> string \<Rightarrow> jsval" where
  "js_get (JObj ms) k = map_of ms k"
| "js_get j k = None"

text \<open>
  \<open>js_prop v k\<close> is the unguarded read \<^verbatim>\<open>v[k]\<close>: it raises a TypeError when \<open>v\<close> is null
  or undefined.
\<close>

definition js_prop :: "jsval \<Rightarrow> string \<Rightarrow> error + jsval" where
  "js_prop v k =
     (case v of
        None \<Rightarrow> Inl TypeError
      | Some JNull \<Rightarrow> Inl TypeError
      | Some j \<Rightarrow> Inr (js_get j k))"

text \<open>
  \<open>js_set v k x\<close> is what \<^verbatim>\<open>JSON.stringify\<close> later sees of \<open>v\<close> after \<^verbatim>\<open>v[k] = x\<close>, for
  \<open>v\<close> neither null nor undefined. On an object the member is replaced in place or
  appended. On a string, number or boolean the assignment is ignored (the scripts are
  CommonJS files with no strict-mode directive). On an array the named member is set in
  memory but is not part of the serialised array.
\<close>

fun js_set :: "json \<Rightarrow> string \<Rightarrow> json \<Rightarrow> json" where
  "js_set (JObj ms) k x = JObj (AList.update k x ms)"
| "js_set j k x = j"

text \<open>\<open>js_delete v k\<close> is \<^verbatim>\<open>delete v[k]\<close>, seen the same way.\<close>

fun js_delete :: "json \<Rightarrow> string \<Rightarrow> json" where
  "js_delete (JObj ms) k = JObj (AList.delete k ms)"
| "js_delete j k = j"

text \<open>
  An object literal \<^verbatim>\<open>{k1: v1, ..., kn: vn}\<close> as it is serialised: \<^verbatim>\<open>JSON.stringify\<close>
  leaves out a member whose value is undefined.
\<close>

definition members :: "(string \<times> jsval) list \<Rightarrow> (string \<times> json) list" where
  "members ms = List.map_filter (\<lambda>(k, v). map_option (Pair k) v) ms"

definition object :: "(string \<times> jsval) list \<Rightarrow> json" where
  "object ms = JObj (members ms)"

text \<open>
  The text a template literal \<^verbatim>\<open>`${v}`\<close> inserts for a value, or the TypeError it
  raises. An object is converted by its \<^verbatim>\<open>toString\<close> method: the inherited one gives
  \<^verbatim>\<open>[object Object]\<close>, but a parsed object with a member of its own named
  \<^verbatim>\<open>toString\<close> has a value there that cannot be called, \<^verbatim>\<open>valueOf\<close> does not give a
  primitive either, and the conversion raises a TypeError. An array is its elements
  joined by commas, with nothing for a null element; the conversion of an element may
  raise in the same way.
\<close>

fun to_string :: "json \<Rightarrow> error + string" and join :: "json list \<Rightarrow> error + string" where
  "to_string JNull = Inr ''null''"
| "to_string (JBool b) = Inr (if b then ''true'' else ''false'')"
| "to_string (JNum s) = Inr s"
| "to_string (JStr s) = Inr s"
| "to_string (JArr xs) = join xs"
| "to_string (JObj ms) =
     (if map_of ms ''toString'' = None then Inr ''[object Object]'' else Inl TypeError)"
| "join [] = Inr []"
| "join [x] = (if x = JNull then Inr [] else to_string x)"
| "join (x # y # ys) =
     (case (if x = JNull then Inr [] else to_string x) of
        Inl e \<Rightarrow> Inl e
      | Inr s \<Rightarrow> (case join (y # ys) of Inl e \<Rightarrow> Inl e | Inr t \<Rightarrow> Inr (s @ '','' @ t)))"

definition template :: "jsval \<Rightarrow> error + string" where
  "template v = (case v of None \<Rightarrow> Inr ''undefined'' | Some j \<Rightarrow> to_string j)"

section \<open>Config store\<close>

text \<open>
  \<^verbatim>\<open>loadConfig\<close> (index.js 60-70, the first entry point 54-64): the parsed document, or
  \<^verbatim>\<open>null\<close> when the file is absent or does not parse (the first entry point then also
  prints a warning).
\<close>

definition loadConfig :: "jfile \<Rightarrow> json" where
  "loadConfig f = (case f of Parsed j \<Rightarrow> j | Missing \<Rightarrow> JNull | Unparseable \<Rightarrow> JNull)"

text \<open>
  The statements shared by both versions of \<^verbatim>\<open>saveConfig\<close> (index.js 84-90, the first
  entry point 71-78):
  \<^verbatim>\<open>if (!config.services) config.services = {}; config.services[serviceType] = entry\<close>.
  Here \<open>config\<close> is truthy. For an object the \<^verbatim>\<open>services\<close> member is kept when truthy and
  replaced by an empty object otherwise, then the entry is set in it. For an array both
  assignments succeed in memory and nothing of them is serialised. For a truthy string,
  number or boolean the first assignment is ignored, \<^verbatim>\<open>config.services\<close> stays
  undefined and the second assignment raises a TypeError.
\<close>

definition set_service :: "json \<Rightarrow> string \<Rightarrow> json \<Rightarrow> error + json" where
  "set_service config serviceType entry =
     (case config of
        JObj ms \<Rightarrow>
          (let services =
                 (case js_get config ''services'' of
                    Some s \<Rightarrow> if truthy s then s else JObj []
                  | None \<Rightarrow> JObj [])
           in Inr (js_set config ''services'' (js_set services serviceType entry)))
      | JArr xs \<Rightarrow> Inr config
      | _ \<Rightarrow> Inl TypeError)"

text \<open>
  \<^verbatim>\<open>saveConfig(serviceType, credentials)\<close> of index.js (73-94). \<open>now\<close> is the text of
  \<^verbatim>\<open>new Date().toISOString()\<close>. \<open>credentials\<close> is the member list of the object every
  caller passes. The result is the rewritten file (the text of \<^verbatim>\<open>JSON.stringify\<close>), or
  the error raised before the write.
\<close>

definition saveConfig :: "string \<Rightarrow> string \<Rightarrow> (string \<times> json) list \<Rightarrow> jfile \<Rightarrow> error + jfile" where
  "saveConfig now serviceType credentials f =
     (let config = (if truthy (loadConfig f) then loadConfig f else JObj [])
      in if serviceType = ''googleDrive''
         then Inr (Parsed (stringify (js_set config ''googleDrive''
                     (JObj (AList.update ''updatedAt'' (JStr now) credentials)))))
         else (case set_service config serviceType
                      (object [(''apiKey'', map_of credentials ''apiKey''),
                               (''updatedAt'', Some (JStr now))]) of
                 Inl e \<Rightarrow> Inl e
               | Inr config' \<Rightarrow> Inr (Parsed (stringify config'))))"

text \<open>\<^verbatim>\<open>saveConfig(service, apiKey)\<close> of the first entry point (67-81).\<close>

definition saveConfig_part000 :: "string \<Rightarrow> string \<Rightarrow> jsval \<Rightarrow> jfile \<Rightarrow> error + jfile" where
  "saveConfig_part000 now service apiKey f =
     (let config = (if truthy (loadConfig f) then loadConfig f
                    else JObj [(''services'', JObj [])])
      in case set_service config service
                (object [(''apiKey'', apiKey), (''updatedAt'', Some (JStr now))]) of
           Inl e \<Rightarrow> Inl e
         | Inr config' \<Rightarrow> Inr (Parsed (stringify config')))"

text \<open>
  \<^verbatim>\<open>getServiceCredentials(serviceType)\<close> of index.js (97-115): the credentials value
  (\<^verbatim>\<open>null\<close> when there is none) and the config file afterwards. The branch for the old
  config format sits inside the test \<^verbatim>\<open>config.services && config.services[serviceType]\<close>,
  as in the source.
\<close>

definition getServiceCredentials :: "string \<Rightarrow> string \<Rightarrow> jfile \<Rightarrow> error + (json \<times> jfile)" where
  "getServiceCredentials now serviceType f =
     (let config = loadConfig f
      in if \<not> truthy config then Inr (JNull, f)
         else if serviceType = ''googleDrive''
         then Inr ((case js_get config ''googleDrive'' of
                      Some g \<Rightarrow> if truthy g then g else JNull
                    | None \<Rightarrow> JNull), f)
         else (case js_get config ''services'' of
                 None \<Rightarrow> Inr (JNull, f)
               | Some services \<Rightarrow>
                   if \<not> truthy services then Inr (JNull, f)
                   else (case js_get services serviceType of
                           None \<Rightarrow> Inr (JNull, f)
                         | Some entry \<Rightarrow>
                             if \<not> truthy entry then Inr (JNull, f)
                             else if truthy_val (js_get config ''apiKey'')
                                     \<and> \<not> truthy_val (js_get config ''services'')
                                     \<and> serviceType = ''pixeldrain''
                             then (case saveConfig now ''pixeldrain''
                                          (members [(''apiKey'', js_get config ''apiKey'')]) f of
                                     Inl e \<Rightarrow> Inl e
                                   | Inr f' \<Rightarrow>
                                       Inr (object [(''apiKey'', js_get config ''apiKey'')], f'))
                             else Inr (entry, f))))"

text \<open>
  The expression \<^verbatim>\<open>credentials ? credentials.apiKey : null\<close> that every caller of
  \<^verbatim>\<open>getServiceCredentials\<close> applies to its result (index.js 662, 1178).
\<close>

definition credentials_apiKey :: "json \<Rightarrow> jsval" where
  "credentials_apiKey credentials =
     (if truthy credentials then js_get credentials ''apiKey'' else Some JNull)"

text \<open>
  \<^verbatim>\<open>getServiceApiKey(service)\<close> of the first entry point (84-101): the API key
  (\<^verbatim>\<open>null\<close> when there is none) and the config file afterwards.
\<close>

definition getServiceApiKey :: "string \<Rightarrow> string \<Rightarrow> jfile \<Rightarrow> error + (jsval \<times> jfile)" where
  "getServiceApiKey now service f =
     (let config = loadConfig f
      in if \<not> truthy config then Inr (Some JNull, f)
         else if truthy_val (js_get config ''apiKey'')
                 \<and> \<not> truthy_val (js_get config ''services'')
                 \<and> service = ''pixeldrain''
         then (case saveConfig_part000 now ''pixeldrain'' (js_get config ''apiKey'') f of
                 Inl e \<Rightarrow> Inl e
               | Inr f' \<Rightarrow> Inr (js_get config ''apiKey'', f'))
         else (case js_get config ''services'' of
                 None \<Rightarrow> Inr (Some JNull, f)
               | Some services \<Rightarrow>
                   if \<not> truthy services then Inr (Some JNull, f)
                   else (case js_get services service of
                           None \<Rightarrow> Inr (Some JNull, f)
                         | Some entry \<Rightarrow>
                             if \<not> truthy entry then Inr (Some JNull, f)
                             else Inr (js_get entry ''apiKey'', f))))"

text \<open>
  \<^verbatim>\<open>deleteServiceConfig(service)\<close> (index.js 632-645): the config file afterwards. The
  file is rewritten only when the entry exists and is truthy.
\<close>

definition deleteServiceConfig :: "string \<Rightarrow> jfile \<Rightarrow> jfile" where
  "deleteServiceConfig service f =
     (let config = loadConfig f
      in if \<not> truthy config then f
         else (case js_get config ''services'' of
                 None \<Rightarrow> f
               | Some services \<Rightarrow>
                   if truthy services \<and> truthy_val (js_get services service)
                   then Parsed (stringify (js_set config ''services'' (js_delete services service)))
                   else f))"

text \<open>
  What a later run reads: \<^verbatim>\<open>config[k]\<close> and \<^verbatim>\<open>config.services[s]\<close> of the stored
  document (undefined when there is nothing to read from).
\<close>

definition config_field :: "jfile \<Rightarrow> string \<Rightarrow> jsval" where
  "config_field f k = js_get (loadConfig f) k"

definition service_entry :: "jfile \<Rightarrow> string \<Rightarrow> jsval" where
  "service_entry f s =
     (case config_field f ''services'' of None \<Rightarrow> None | Some services \<Rightarrow> js_get services s)"

section \<open>Numbers of the progress computation\<close>

text \<open>
  The progress callback computes with JavaScript numbers, the doubles of IEEE 754
  (binary64). A finite number is the rational it stands for; the two infinities and
  not-a-number are values of their own. The sign of a zero is not kept: \<open>Fin 0\<close> is the
  positive zero (the only zero divisor that arises is a difference \<open>x - x\<close> divided by
  a positive time, which is the positive zero).
\<close>

datatype jsnum = Fin rat | PInf | NInf | NaN

text \<open>
  Every arithmetic operation gives the double nearest to the exact result, a tie going to
  the double with the even significand, and an infinity when that rounding leaves the
  range. \<open>pow2 k\<close> is the power of two with exponent \<open>k\<close>; \<open>ilog2 q\<close> is, for positive
  \<open>q\<close>, the exponent \<open>k\<close> with \<open>pow2 k \<le> q < pow2 (k + 1)\<close>. A double with exponent \<open>e\<close>
  is a multiple of \<open>pow2 (e - 52)\<close>; the least exponent is \<open>-1022\<close> (below it lie the
  subnormal numbers, with the same spacing) and the greatest is \<open>1023\<close>.
\<close>

definition pow2 :: "int \<Rightarrow> rat" where
  "pow2 k = (if k \<ge> 0 then 2 ^ nat k else 1 / 2 ^ nat (- k))"

definition ilog2 :: "rat \<Rightarrow> int" where
  "ilog2 q = (if q \<ge> 1 then bitlen \<lfloor>q\<rfloor> - 1 else - bitlen (\<lceil>1 / q\<rceil> - 1))"

definition round_half_even :: "rat \<Rightarrow> int" where
  "round_half_even x =
     (let f = \<lfloor>x\<rfloor>; d = x - of_int f
      in if d < 1 / 2 then f else if d > 1 / 2 then f + 1 else if even f then f else f + 1)"

definition round_double :: "rat \<Rightarrow> jsnum" where
  "round_double q =
     (if q = 0 then Fin 0
      else
        let a = \<bar>q\<bar>;
            e = max (ilog2 a) (- 1022);
            ulp = pow2 (e - 52);
            m = round_half_even (a / ulp)
        in if e > 1023 \<or> (e = 1023 \<and> m \<ge> 2 ^ 53) then (if q > 0 then PInf else NInf)
           else Fin ((if q > 0 then 1 else - 1) * (of_int m * ulp)))"

text \<open>
  The number of an integer (a byte count, or a time in milliseconds): the integer itself
  when its magnitude is below \<open>2 ^ 53\<close>, the nearest double otherwise.
\<close>

definition num :: "int \<Rightarrow> jsnum" where
  "num i = round_double (of_int i)"

fun jsub :: "jsnum \<Rightarrow> jsnum \<Rightarrow> jsnum" where
  "jsub (Fin a) (Fin b) = round_double (a - b)"
| "jsub NaN y = NaN"
| "jsub x NaN = NaN"
| "jsub PInf PInf = NaN"
| "jsub NInf NInf = NaN"
| "jsub PInf y = PInf"
| "jsub NInf y = NInf"
| "jsub (Fin a) PInf = NInf"
| "jsub (Fin a) NInf = PInf"

fun jmul :: "jsnum \<Rightarrow> jsnum \<Rightarrow> jsnum" where
  "jmul (Fin a) (Fin b) = round_double (a * b)"
| "jmul NaN y = NaN"
| "jmul x NaN = NaN"
| "jmul PInf PInf = PInf"
| "jmul PInf NInf = NInf"
| "jmul NInf PInf = NInf"
| "jmul NInf NInf = PInf"
| "jmul PInf (Fin b) = (if b > 0 then PInf else if b < 0 then NInf else NaN)"
| "jmul NInf (Fin b) = (if b > 0 then NInf else if b < 0 then PInf else NaN)"
| "jmul (Fin a) PInf = (if a > 0 then PInf else if a < 0 then NInf else NaN)"
| "jmul (Fin a) NInf = (if a > 0 then NInf else if a < 0 then PInf else NaN)"

fun jdiv :: "jsnum \<Rightarrow> jsnum \<Rightarrow> jsnum" where
  "jdiv (Fin a) (Fin b) =
     (if b \<noteq> 0 then round_double (a / b)
      else if a > 0 then PInf else if a < 0 then NInf else NaN)"
| "jdiv NaN y = NaN"
| "jdiv x NaN = NaN"
| "jdiv (Fin a) PInf = Fin 0"
| "jdiv (Fin a) NInf = Fin 0"
| "jdiv PInf (Fin b) = (if b < 0 then NInf else PInf)"
| "jdiv NInf (Fin b) = (if b < 0 then PInf else NInf)"
| "jdiv PInf y = NaN"
| "jdiv NInf y = NaN"

text \<open>
  \<^verbatim>\<open>Math.round\<close> gives the nearest integer, a half going towards plus infinity, and
  \<^verbatim>\<open>Math.floor\<close> the greatest integer below; both results are doubles, so nothing is
  rounded.
\<close>

fun jround :: "jsnum \<Rightarrow> jsnum" where
  "jround (Fin a) = Fin (of_int \<lfloor>a + 1 / 2\<rfloor>)"
| "jround x = x"

fun jfloor :: "jsnum \<Rightarrow> jsnum" where
  "jfloor (Fin a) = Fin (of_int \<lfloor>a\<rfloor>)"
| "jfloor x = x"

text \<open>
  The remainder \<^verbatim>\<open>x % y\<close>: the quotient is truncated towards zero, so the result has the
  sign of \<open>x\<close>; it is not a number when \<open>x\<close> is infinite or \<open>y\<close> is zero. The remainder of
  two doubles is a double, so nothing is rounded.
\<close>

definition trunc :: "rat \<Rightarrow> int" where
  "trunc q = (if q \<ge> 0 then \<lfloor>q\<rfloor> else \<lceil>q\<rceil>)"

fun jmod :: "jsnum \<Rightarrow> jsnum \<Rightarrow> jsnum" where
  "jmod (Fin a) (Fin b) = (if b = 0 then NaN else Fin (a - b * of_int (trunc (a / b))))"
| "jmod NaN y = NaN"
| "jmod x NaN = NaN"
| "jmod PInf y = NaN"
| "jmod NInf y = NaN"
| "jmod (Fin a) PInf = Fin a"
| "jmod (Fin a) NInf = Fin a"

text \<open>The comparisons \<^verbatim>\<open>x > y\<close> and \<^verbatim>\<open>x >= y\<close>: false as soon as one side is not a number.\<close>

fun jgt :: "jsnum \<Rightarrow> jsnum \<Rightarrow> bool" where
  "jgt (Fin a) (Fin b) = (a > b)"
| "jgt NaN y = False"
| "jgt x NaN = False"
| "jgt PInf PInf = False"
| "jgt PInf y = True"
| "jgt NInf y = False"
| "jgt (Fin a) PInf = False"
| "jgt (Fin a) NInf = True"

definition jge :: "jsnum \<Rightarrow> jsnum \<Rightarrow> bool" where
  "jge x y = (x \<noteq> NaN \<and> y \<noteq> NaN \<and> (jgt x y \<or> x = y))"

section \<open>The progress callback\<close>

text \<open>
  \<^verbatim>\<open>onUploadProgress\<close> (index.js 793-822 and 947-976, the first entry point 494-523
  and 648-677; the four copies are the same text). The event carries the byte count
  \<^verbatim>\<open>loaded\<close> and, when the length is computable, \<^verbatim>\<open>total\<close>. The closure variables
  \<^verbatim>\<open>lastLoaded\<close> and \<^verbatim>\<open>lastTime\<close> are the sample state; \<open>currentTime\<close> is \<^verbatim>\<open>Date.now()\<close>
  in milliseconds. The callback sets the spinner text from the values below; the text
  itself (number formatting, colours) is not modelled, the numbers it shows are.
\<close>

record progress_event =
  loaded :: int
  total :: "int option"

record sample_state =
  lastLoaded :: int
  lastTime :: int

datatype eta_display = MinSec jsnum jsnum | SecOnly jsnum

record spinner_values =
  percentCompleted :: jsnum
  speedBps :: jsnum
  speedMbps :: jsnum
  etaSeconds :: jsnum
  etaMin :: jsnum
  etaSec :: jsnum
  etaDisplay :: eta_display

text \<open>The seconds since the previous sample: \<^verbatim>\<open>(currentTime - lastTime) / 1000\<close>.\<close>

definition timeDiff :: "sample_state \<Rightarrow> int \<Rightarrow> jsnum" where
  "timeDiff st currentTime = jdiv (jsub (num currentTime) (num (lastTime st))) (Fin 1000)"

definition onUploadProgress ::
  "sample_state \<Rightarrow> progress_event \<Rightarrow> int \<Rightarrow> sample_state \<times> spinner_values option" where
  "onUploadProgress st ev currentTime =
     (case total ev of
        None \<Rightarrow> (st, None)
      | Some t \<Rightarrow>
          if t = 0 then (st, None)
          else
            let percent = jround (jdiv (jmul (num (loaded ev)) (Fin 100)) (num t));
                loadedDiff = jsub (num (loaded ev)) (num (lastLoaded st))
            in if jgt (timeDiff st currentTime) (Fin 0) then
                 let speed = jdiv loadedDiff (timeDiff st currentTime);
                     mbps = jdiv speed (jmul (Fin 1024) (Fin 1024));
                     remainingBytes = jsub (num t) (num (loaded ev));
                     secs = jround (jdiv remainingBytes speed);
                     mins = jfloor (jdiv secs (Fin 60));
                     sec = jmod secs (Fin 60)
                 in (\<lparr>lastLoaded = loaded ev, lastTime = currentTime\<rparr>,
                     Some \<lparr>percentCompleted = percent, speedBps = speed, speedMbps = mbps,
                           etaSeconds = secs, etaMin = mins, etaSec = sec,
                           etaDisplay = (if jgt mins (Fin 0) then MinSec mins sec
                                         else SecOnly sec)\<rparr>)
               else (st, None))"

section \<open>Request headers\<close>

text \<open>
  \<^verbatim>\<open>Buffer.from(s).toString('base64')\<close>: the standard Base64 alphabet with padding, over
  the bytes of the string. A \<open>string\<close> here is the byte sequence of the text (its UTF-8
  encoding, which is what \<^verbatim>\<open>Buffer.from\<close> produces).
\<close>

definition b64chars :: string where
  "b64chars = ''ABCDEFGHIJKLMNOPQRSTUVWXYZabcdefghijklmnopqrstuvwxyz0123456789+/''"

definition b64 :: "nat \<Rightarrow> char" where
  "b64 n = b64chars ! (n mod 64)"

fun base64 :: "string \<Rightarrow> string" where
  "base64 [] = []"
| "base64 [a] =
     (let x = of_char a :: nat
      in [b64 (x div 4), b64 ((x mod 4) * 16), CHR ''='', CHR ''=''])"
| "base64 [a, b] =
     (let x = of_char a :: nat; y = of_char b :: nat
      in [b64 (x div 4), b64 ((x mod 4) * 16 + y div 16), b64 ((y mod 16) * 4), CHR ''=''])"
| "base64 (a # b # c # rest) =
     (let x = of_char a :: nat; y = of_char b :: nat; z = of_char c :: nat
      in [b64 (x div 4), b64 ((x mod 4) * 16 + y div 16),
          b64 ((y mod 16) * 4 + z div 64), b64 (z mod 64)] @ base64 rest)"

text \<open>
  \<^verbatim>\<open>form.getHeaders()\<close> of the form-data package: the content type of the multipart
  body with its boundary, and nothing else.
\<close>

definition getHeaders :: "string \<Rightarrow> (string \<times> string) list" where
  "getHeaders b = [(''content-type'', ''multipart/form-data; boundary='' @ b)]"

section \<open>Reading a Basic authorisation header\<close>

text \<open>
  What the receiving side does with the value of an \<^verbatim>\<open>Authorization\<close> header (RFC 7617
  with the Base64 of RFC 4648): after the scheme name the rest is decoded, and the
  decoded text is split at its first colon into user name and password. These
  functions are no part of the program; they say what the header it sends means.
\<close>

fun index_of :: "'a list \<Rightarrow> 'a \<Rightarrow> nat option" where
  "index_of [] x = None"
| "index_of (y # ys) x = (if x = y then Some 0 else map_option Suc (index_of ys x))"

definition sextet :: "char \<Rightarrow> nat option" where
  "sextet c = index_of b64chars c"

definition group3 :: "nat \<Rightarrow> nat \<Rightarrow> nat \<Rightarrow> nat \<Rightarrow> string" where
  "group3 p q r s =
     [char_of (p * 4 + q div 16), char_of ((q mod 16) * 16 + r div 4), char_of ((r mod 4) * 64 + s)]"

fun base64_decode :: "string \<Rightarrow> string option" where
  "base64_decode [] = Some []"
| "base64_decode [a, b, c, d] =
     (case (sextet a, sextet b) of
        (Some p, Some q) \<Rightarrow>
          if c = CHR ''='' \<and> d = CHR ''='' then Some (take 1 (group3 p q 0 0))
          else (case sextet c of
                  None \<Rightarrow> None
                | Some r \<Rightarrow>
                    if d = CHR ''='' then Some (take 2 (group3 p q r 0))
                    else map_option (group3 p q r) (sextet d))
      | _ \<Rightarrow> None)"
| "base64_decode (a # b # c # d # rest) =
     (case (sextet a, sextet b, sextet c, sextet d, base64_decode rest) of
        (Some p, Some q, Some r, Some s, Some bs) \<Rightarrow> Some (group3 p q r s @ bs)
      | _ \<Rightarrow> None)"
| "base64_decode xs = None"

definition basic_credentials :: "string \<Rightarrow> (string \<times> string) option" where
  "basic_credentials v =
     (if take 6 v = ''Basic '' then
        (case base64_decode (drop 6 v) of
           None \<Rightarrow> None
         | Some up \<Rightarrow>
             if CHR '':'' \<in> set up
             then Some (takeWhile (\<lambda>c. c \<noteq> CHR '':'') up,
                        tl (dropWhile (\<lambda>c. c \<noteq> CHR '':'') up))
             else None)
      else None)"

section \<open>The process, its signal handlers and the uploads\<close>

text \<open>
  The state an upload reads and writes: the two store files and the listeners
  registered for \<^verbatim>\<open>SIGINT\<close>, most recent first. The program registers one kind of
  listener, \<^verbatim>\<open>handleCancel\<close>.
\<close>

datatype handler = HandleCancel

record world =
  config_file :: jfile
  history_file :: jfile
  sigint_listeners :: "handler list"

text \<open>
  How a run ends: the function returns, the process exits with a status
  (\<^verbatim>\<open>process.exit\<close>), or the process is terminated by the signal because no listener is
  registered.
\<close>

datatype outcome = Returned | Exited nat | Killed

text \<open>
  The effects that are recorded, in order: the call of \<^verbatim>\<open>axios.post\<close> with its URL and
  headers, each update of the spinner text, the abort of the request and the write of
  the history file. Console output and the clipboard are left out. A request is the
  call; what the transport makes of it (also of a header value it does not accept) is
  part of the settlement.
\<close>

datatype effect =
    Request string "(string \<times> string) list"
  | SpinnerText spinner_values
  | AbortRequest
  | WriteHistory jfile

text \<open>
  What \<^verbatim>\<open>await axios.post(...)\<close> settles to: a response with its parsed body, or a
  rejection whose error carries a response (with its status), only a request, or
  neither, the three cases the \<^verbatim>\<open>catch\<close> block tells apart.
\<close>

datatype axios_result = Resolved json | HttpError nat | NetworkError | OtherError

text \<open>What the event loop delivers while the request is in flight.\<close>

datatype inflight = Progress progress_event int | Sigint

text \<open>
  The surroundings of one upload: the file on disk, the text \<^verbatim>\<open>formatFileSize\<close> gives
  for its size (taken as given), the multipart
  boundary, the clock at the start, the events delivered during the request, the
  settlement of the request and the timestamp of the history entry.
\<close>

record upload_env =
  file_exists :: bool
  file_name :: string
  file_size :: nat
  size_text :: string
  form_boundary :: string
  start_time :: int
  inflight_events :: "inflight list"
  post_result :: axios_result
  entry_time :: string

text \<open>
  Delivery of \<^verbatim>\<open>SIGINT\<close>. With no listener the process is terminated. \<^verbatim>\<open>handleCancel\<close>
  (index.js 778-783) calls \<^verbatim>\<open>abortController.abort()\<close> and then \<^verbatim>\<open>process.exit(0)\<close>.
\<close>

definition raise_sigint :: "handler list \<Rightarrow> effect list \<times> outcome" where
  "raise_sigint ls = (case ls of [] \<Rightarrow> ([], Killed) | HandleCancel # rest \<Rightarrow> ([AbortRequest], Exited 0))"

text \<open>
  The wait for the request: the events are handled in order, each progress event by
  \<^verbatim>\<open>onUploadProgress\<close>; a signal that ends the process ends the wait.
\<close>

fun await_post :: "handler list \<Rightarrow> sample_state \<Rightarrow> inflight list \<Rightarrow> effect list \<times> outcome option" where
  "await_post ls st [] = ([], None)"
| "await_post ls st (Progress ev now # es) =
     (let (st', shown) = onUploadProgress st ev now;
          (tr, out) = await_post ls st' es
      in ((case shown of None \<Rightarrow> [] | Some v \<Rightarrow> [SpinnerText v]) @ tr, out))"
| "await_post ls st (Sigint # es) = (let (tr, out) = raise_sigint ls in (tr, Some out))"

definition PIXELDRAIN_UPLOAD_URL :: string where
  "PIXELDRAIN_UPLOAD_URL = ''https://pixeldrain.com/api/file''"

text \<open>
  \<^verbatim>\<open>uploadToPixeldrain(filePath, apiKey)\<close> (index.js 731-879, the first entry point
  432-580, the same text). Every exception raised inside the \<^verbatim>\<open>try\<close> reaches the
  \<^verbatim>\<open>catch\<close> block, which ends with \<^verbatim>\<open>process.exit(1)\<close>. The header is built, from the
  text of the key, before the listener is registered and the request is made; the
  download link is built, from the text of the identifier, before the history is saved.
\<close>

definition uploadToPixeldrain :: "upload_env \<Rightarrow> jsval \<Rightarrow> world \<Rightarrow> outcome \<times> effect list \<times> world" where
  "uploadToPixeldrain env apiKey w =
     (if \<not> file_exists env then (Exited 1, [], w)
      else
        case template apiKey of
          Inl e \<Rightarrow> (Exited 1, [], w)
        | Inr key \<Rightarrow>
            (let headers = AList.update ''Authorization''
                             (''Basic '' @ base64 ('':'' @ key))
                             (getHeaders (form_boundary env));
                 w1 = w\<lparr>sigint_listeners := HandleCancel # sigint_listeners w\<rparr>;
                 request = Request PIXELDRAIN_UPLOAD_URL headers;
                 (tr, stopped) = await_post (sigint_listeners w1)
                                   \<lparr>lastLoaded = 0, lastTime = start_time env\<rparr> (inflight_events env)
             in case stopped of
                  Some out \<Rightarrow> (out, request # tr, w1)
                | None \<Rightarrow>
                    (case post_result env of
                       Resolved data \<Rightarrow>
                         (let w2 = w1\<lparr>sigint_listeners := remove1 HandleCancel (sigint_listeners w1)\<rparr>
                          in case js_prop (Some data) ''id'' of
                               Inl e \<Rightarrow> (Exited 1, request # tr, w2)
                             | Inr fileId \<Rightarrow>
                                 (case template fileId of
                                    Inl e \<Rightarrow> (Exited 1, request # tr, w2)
                                  | Inr idText \<Rightarrow>
                                      (let downloadLink = ''https://pixeldrain.com/u/'' @ idText;
                                           historyEntry = object
                                             [(''service'', Some (JStr ''pixeldrain'')),
                                              (''timestamp'', Some (JStr (entry_time env))),
                                              (''filename'', Some (JStr (file_name env))),
                                              (''fileSize'', Some (JStr (size_text env))),
                                              (''fileId'', fileId),
                                              (''downloadLink'', Some (JStr downloadLink))]
                                       in case saveHistory historyEntry (history_file w2) of
                                            Inl e \<Rightarrow> (Exited 1, request # tr, w2)
                                          | Inr h \<Rightarrow>
                                              (Returned, request # tr @ [WriteHistory h],
                                               w2\<lparr>history_file := h\<rparr>))))
                     | HttpError status \<Rightarrow> (Exited 1, request # tr, w1)
                     | NetworkError \<Rightarrow> (Exited 1, request # tr, w1)
                     | OtherError \<Rightarrow> (Exited 1, request # tr, w1))))"

text \<open>
  \<^verbatim>\<open>uploadToGofile(filePath, token)\<close> (index.js 882-1033, the first entry point
  583-734, the same text). The download link is a field of the response; its text is
  first needed when the link is printed (index.js 1003), after the history is saved, so
  a TypeError raised there ends the process with status 1 and the entry already written.
\<close>

definition uploadToGofile :: "upload_env \<Rightarrow> jsval \<Rightarrow> world \<Rightarrow> outcome \<times> effect list \<times> world" where
  "uploadToGofile env token w =
     (if \<not> file_exists env then (Exited 1, [], w)
      else
        case (if truthy_val token
              then (case template token of
                      Inl e \<Rightarrow> Inl e
                    | Inr tokenText \<Rightarrow>
                        Inr (AList.update ''Authorization'' (''Bearer '' @ tokenText)
                               (getHeaders (form_boundary env))))
              else Inr (getHeaders (form_boundary env))) of
          Inl e \<Rightarrow> (Exited 1, [], w)
        | Inr headers \<Rightarrow>
            (let w1 = w\<lparr>sigint_listeners := HandleCancel # sigint_listeners w\<rparr>;
                 request = Request ''https://upload.gofile.io/uploadfile'' headers;
                 (tr, stopped) = await_post (sigint_listeners w1)
                                   \<lparr>lastLoaded = 0, lastTime = start_time env\<rparr> (inflight_events env)
             in case stopped of
                  Some out \<Rightarrow> (out, request # tr, w1)
                | None \<Rightarrow>
                    (case post_result env of
                       Resolved data \<Rightarrow>
                         (let w2 = w1\<lparr>sigint_listeners := remove1 HandleCancel (sigint_listeners w1)\<rparr>
                          in case js_prop (Some data) ''data'' of
                               Inl e \<Rightarrow> (Exited 1, request # tr, w2)
                             | Inr inner \<Rightarrow>
                                 (case js_prop inner ''fileId'' of
                                    Inl e \<Rightarrow> (Exited 1, request # tr, w2)
                                  | Inr fileId \<Rightarrow>
                                      (case js_prop inner ''downloadPage'' of
                                         Inl e \<Rightarrow> (Exited 1, request # tr, w2)
                                       | Inr downloadLink \<Rightarrow>
                                           (let historyEntry = object
                                                  [(''service'', Some (JStr ''gofile'')),
                                                   (''timestamp'', Some (JStr (entry_time env))),
                                                   (''filename'', Some (JStr (file_name env))),
                                                   (''fileSize'', Some (JStr (size_text env))),
                                                   (''fileId'', fileId),
                                                   (''downloadLink'', downloadLink)]
                                            in case saveHistory historyEntry (history_file w2) of
                                                 Inl e \<Rightarrow> (Exited 1, request # tr, w2)
                                               | Inr h \<Rightarrow>
                                                   (case template downloadLink of
                                                      Inl e \<Rightarrow>
                                                        (Exited 1, request # tr @ [WriteHistory h],
                                                         w2\<lparr>history_file := h\<rparr>)
                                                    | Inr shown \<Rightarrow>
                                                        (Returned, request # tr @ [WriteHistory h],
                                                         w2\<lparr>history_file := h\<rparr>))))))
                     | HttpError status \<Rightarrow> (Exited 1, request # tr, w1)
                     | NetworkError \<Rightarrow> (Exited 1, request # tr, w1)
                     | OtherError \<Rightarrow> (Exited 1, request # tr, w1))))"

section \<open>The upload router\<close>

text \<open>\<^verbatim>\<open>answer.toLowerCase()\<close> on the letters of the answers compared with.\<close>

definition toLowerCase :: "string \<Rightarrow> string" where
  "toLowerCase s =
     map (\<lambda>c. if CHR ''A'' \<le> c \<and> c \<le> CHR ''Z'' then char_of (of_char c + (32::nat)) else c) s"

text \<open>
  \<^verbatim>\<open>uploadFile(filePath, serviceFlag)\<close> of index.js (1152-1235). \<open>serviceFlag\<close> is
  \<^verbatim>\<open>program.args[0]\<close>, undefined when absent. \<open>answer\<close> is what the user types when asked
  whether to continue with a file above the Pixeldrain limit. The size test
  \<^verbatim>\<open>stats.size / (1024 * 1024 * 1024) > 10\<close> divides by a power of two, which is exact,
  so it is the comparison of the byte count with ten times that power. The Google Drive
  upload is taken as a parameter. An exception that leaves \<^verbatim>\<open>uploadFile\<close> is an
  unhandled rejection, which ends the process with status 1.
\<close>

definition uploadFile ::
  "(world \<Rightarrow> outcome \<times> effect list \<times> world) \<Rightarrow> upload_env \<Rightarrow> string \<Rightarrow> string \<Rightarrow>
   string \<Rightarrow> string option \<Rightarrow> world \<Rightarrow> outcome \<times> effect list \<times> world" where
  "uploadFile uploadToGoogleDrive env now answer filePath serviceFlag w =
     (if filePath = [] then (Exited 1, [], w)
      else
        let service = (if serviceFlag = Some ''gf'' then ''gofile''
                       else if serviceFlag = Some ''pd'' then ''pixeldrain''
                       else if serviceFlag = Some ''gd'' then ''googledrive''
                       else ''gofile'')
        in if service = ''googledrive'' then uploadToGoogleDrive w
           else
             (case getServiceCredentials now service (config_file w) of
                Inl e \<Rightarrow> (Exited 1, [], w)
              | Inr (credentials, cf) \<Rightarrow>
                  (let w1 = w\<lparr>config_file := cf\<rparr>;
                       apiKey = credentials_apiKey credentials
                   in if service = ''pixeldrain'' \<and> file_exists env
                         \<and> file_size env > 10 * (1024 * 1024 * 1024)
                         \<and> toLowerCase answer \<noteq> ''y'' \<and> toLowerCase answer \<noteq> ''yes''
                      then (Exited 0, [], w1)
                      else if \<not> truthy_val apiKey \<and> service = ''pixeldrain''
                      then (Exited 1, [], w1)
                      else if service = ''gofile'' then uploadToGofile env apiKey w1
                      else uploadToPixeldrain env apiKey w1)))"

section \<open>Names for parts of the uploads\<close>

text \<open>
  The header objects and history entries that the two upload functions build inline,
  named so that statements can refer to them, and two tests on effects.
\<close>

definition pixeldrain_headers :: "string \<Rightarrow> string \<Rightarrow> (string \<times> string) list" where
  "pixeldrain_headers b key =
     [(''content-type'', ''multipart/form-data; boundary='' @ b),
      (''Authorization'', ''Basic '' @ base64 ('':'' @ key))]"

text \<open>
  The text that \<^verbatim>\<open>uploadToGofile\<close> sends after \<^verbatim>\<open>Bearer\<close>: none for a falsy token, the
  text of a truthy one, or the TypeError raised in building it.
\<close>

definition bearer :: "jsval \<Rightarrow> error + string option" where
  "bearer token =
     (if truthy_val token
      then (case template token of Inl e \<Rightarrow> Inl e | Inr t \<Rightarrow> Inr (Some t))
      else Inr None)"

definition gofile_headers :: "string \<Rightarrow> string option \<Rightarrow> (string \<times> string) list" where
  "gofile_headers b auth =
     (case auth of
        Some t \<Rightarrow> [(''content-type'', ''multipart/form-data; boundary='' @ b),
                   (''Authorization'', ''Bearer '' @ t)]
      | None \<Rightarrow> [(''content-type'', ''multipart/form-data; boundary='' @ b)])"

definition pixeldrain_entry :: "upload_env \<Rightarrow> jsval \<Rightarrow> string \<Rightarrow> json" where
  "pixeldrain_entry env fileId idText =
     object [(''service'', Some (JStr ''pixeldrain'')),
             (''timestamp'', Some (JStr (entry_time env))),
             (''filename'', Some (JStr (file_name env))),
             (''fileSize'', Some (JStr (size_text env))),
             (''fileId'', fileId),
             (''downloadLink'', Some (JStr (''https://pixeldrain.com/u/'' @ idText)))]"

definition gofile_entry :: "upload_env \<Rightarrow> jsval \<Rightarrow> jsval \<Rightarrow> json" where
  "gofile_entry env fileId downloadLink =
     object [(''service'', Some (JStr ''gofile'')),
             (''timestamp'', Some (JStr (entry_time env))),
             (''filename'', Some (JStr (file_name env))),
             (''fileSize'', Some (JStr (size_text env))),
             (''fileId'', fileId),
             (''downloadLink'', downloadLink)]"

fun is_spinner :: "effect \<Rightarrow> bool" where
  "is_spinner (SpinnerText v) = True"
| "is_spinner x = False"

fun is_request :: "effect \<Rightarrow> bool" where
  "is_request (Request url hs) = True"
| "is_request x = False"

fun is_write :: "effect \<Rightarrow> bool" where
  "is_write (WriteHistory h) = True"
| "is_write x = False"

text \<open>The clock and sample state at the start of an upload, and the listeners during it.\<close>

definition first_sample :: "upload_env \<Rightarrow> sample_state" where
  "first_sample env = \<lparr>lastLoaded = 0, lastTime = start_time env\<rparr>"

definition during :: "world \<Rightarrow> world" where
  "during w = w\<lparr>sigint_listeners := HandleCancel # sigint_listeners w\<rparr>"

definition outcome_of :: "outcome \<times> effect list \<times> world \<Rightarrow> outcome" where
  "outcome_of r = fst r"

definition trace_of :: "outcome \<times> effect list \<times> world \<Rightarrow> effect list" where
  "trace_of r = fst (snd r)"

definition world_of :: "outcome \<times> effect list \<times> world \<Rightarrow> world" where
  "world_of r = snd (snd r)"

text \<open>
  \<^verbatim>\<open>uploadToGoogleDrive\<close> (index.js 1036-1149) on a store with no Google Drive
  credentials: whether the file is missing (1044-1047) or the client is null
  (1058-1063), the process exits with status 1 and nothing is requested or written.
\<close>

definition uploadToGoogleDrive_unconfigured :: "world \<Rightarrow> outcome \<times> effect list \<times> world" where
  "uploadToGoogleDrive_unconfigured w = (Exited 1, [], w)"

section \<open>Concrete inputs\<close>

definition sample_config :: jfile where
  "sample_config =
     Parsed (JObj [(''services'',
                    JObj [(''gofile'', JObj [(''apiKey'', JStr ''tok''), (''updatedAt'', JStr ''t0'')])]),
                   (''googleDrive'', JObj [(''clientId'', JStr ''id''), (''updatedAt'', JStr ''t0'')])])"

definition legacy_config :: jfile where
  "legacy_config = Parsed (JObj [(''apiKey'', JStr ''abc'')])"

text \<open>
  A config file in which the Gofile entry has a member written \<^verbatim>\<open>1e400\<close>, which
  \<^verbatim>\<open>JSON.parse\<close> reads as \<^verbatim>\<open>Infinity\<close>.
\<close>

definition nonfinite_config :: jfile where
  "nonfinite_config =
     Parsed (JObj [(''services'',
                    JObj [(''gofile'', JObj [(''apiKey'', JStr ''tok''), (''limit'', JNum ''Infinity'')]),
                          (''pixeldrain'', JObj [(''apiKey'', JStr ''old'')])])])"

definition sample_world :: world where
  "sample_world = \<lparr>config_file = sample_config, history_file = Parsed (JArr []), sigint_listeners = []\<rparr>"

definition sample_env :: upload_env where
  "sample_env =
     \<lparr>file_exists = True, file_name = ''a.bin'', file_size = 1000000, size_text = ''976.56 KB'',
      form_boundary = ''b0'', start_time = 0,
      inflight_events = [Progress \<lparr>loaded = 65536, total = Some 1000000\<rparr> 250],
      post_result = Resolved (JObj [(''id'', JStr ''abc123'')]),
      entry_time = ''2024-01-01T00:00:00.000Z''\<rparr>"

definition gofile_body :: json where
  "gofile_body =
     JObj [(''status'', JStr ''ok''),
           (''data'', JObj [(''fileId'', JStr ''f1''), (''downloadPage'', JStr ''https://gofile.io/d/x'')])]"

section \<open>What a rewrite of a document keeps\<close>

lemma stringify_list_map: "stringify_list xs = map stringify xs"
  by (induction xs) simp_all

lemma map_of_stringify_members:
  "map_of (stringify_members ms) k = map_option stringify (map_of ms k)"
  by (induction ms) auto

lemma js_get_stringify: "js_get (stringify j) k = map_option stringify (js_get j k)"
  by (cases j) (simp_all add: map_of_stringify_members)

lemma stringify_unchanged:
  "finite_numbers j \<Longrightarrow> stringify j = j"
  and stringify_list_unchanged: "finite_numbers_list xs \<Longrightarrow> stringify_list xs = xs"
  and stringify_members_unchanged: "finite_numbers_members ms \<Longrightarrow> stringify_members ms = ms"
  by (induction j and xs and ms rule: stringify_stringify_list_stringify_members.induct) simp_all

lemma finite_numbers_stringify:
  "finite_numbers (stringify j)"
  and finite_numbers_stringify_list: "finite_numbers_list (stringify_list xs)"
  and finite_numbers_stringify_members: "finite_numbers_members (stringify_members ms)"
  by (induction j and xs and ms rule: stringify_stringify_list_stringify_members.induct) simp_all

lemma stringify_value_unchanged:
  "(case v of None \<Rightarrow> True | Some j \<Rightarrow> finite_numbers j) \<Longrightarrow> map_option stringify v = v"
  by (cases v) (simp_all add: stringify_unchanged)

section \<open>History store: the bound of 50 entries\<close>

lemma splice50_take: "splice50 xs = take 50 xs"
  by (simp add: splice50_def)

lemma saveHistory_array:
  "loadHistory f = JArr h \<Longrightarrow>
   saveHistory e f = Inr (Parsed (JArr (stringify e # map stringify (take 49 h))))"
  by (simp add: saveHistory_def splice50_take take_Cons' stringify_list_map)

lemma finite_numbers_list_iff: "finite_numbers_list xs \<longleftrightarrow> (\<forall>x\<in>set xs. finite_numbers x)"
  by (induction xs) simp_all

lemma map_stringify_unchanged: "finite_numbers_list xs \<Longrightarrow> map stringify xs = xs"
  by (simp add: finite_numbers_list_iff stringify_unchanged map_idI)

text \<open>
  C1, as stated, fails on a stored history that holds a number that is not finite:
  \<^verbatim>\<open>JSON.parse\<close> reads the element \<^verbatim>\<open>1e400\<close> as \<^verbatim>\<open>Infinity\<close>, and the rewrite stores
  \<^verbatim>\<open>null\<close> in its place, so what is stored is not the first 50 elements of the entry
  prepended to the list that was read.
\<close>

theorem saveHistory_stores_null_for_infinity:
  "saveHistory (JStr ''e'') (Parsed (JArr [JNum ''Infinity'']))
     = Inr (Parsed (JArr [JStr ''e'', JNull]))
   \<and> take 50 (JStr ''e'' # [JNum ''Infinity'']) = [JStr ''e'', JNum ''Infinity'']
   \<and> [JStr ''e'', JNull] \<noteq> take 50 (JStr ''e'' # [JNum ''Infinity''])"
  by (simp add: saveHistory_def loadHistory_def splice50_def)

text \<open>
  C1, amended. For every stored history list \<open>h\<close> and every new entry \<open>e\<close>,
  \<^verbatim>\<open>saveHistory\<close> stores the first 50 elements of \<open>e\<close> prepended to \<open>h\<close>, each as
  \<^verbatim>\<open>JSON.stringify\<close> writes it: the new entry comes first, the stored list has length
  \<open>min (|h| + 1) 50\<close>, so never more than 50, and what is dropped is the tail of the old
  list from its index 49 on (its oldest entries). A value that holds no number that is
  not finite is written as it is, so when the entry and the list hold none, exactly
  the first 50 elements are stored.
\<close>

theorem saveHistory_bounded:
  "saveHistory e (Parsed (JArr h)) = Inr (Parsed (JArr (map stringify (take 50 (e # h)))))
   \<and> map stringify (take 50 (e # h)) = stringify e # map stringify (take 49 h)
   \<and> length (map stringify (take 50 (e # h))) = min (length h + 1) 50
   \<and> length (map stringify (take 50 (e # h))) \<le> 50
   \<and> e # h = take 50 (e # h) @ drop 49 h
   \<and> (\<forall>x. finite_numbers x \<longrightarrow> stringify x = x)
   \<and> (finite_numbers_list (e # h) \<longrightarrow>
        saveHistory e (Parsed (JArr h)) = Inr (Parsed (JArr (take 50 (e # h)))))"
proof -
  have cut: "take 50 (e # h) = e # take 49 h"
    by (simp add: take_Cons')
  have stored: "saveHistory e (Parsed (JArr h)) = Inr (Parsed (JArr (map stringify (take 50 (e # h)))))"
    by (simp add: saveHistory_def loadHistory_def splice50_take stringify_list_map)
  have first: "map stringify (take 50 (e # h)) = stringify e # map stringify (take 49 h)"
    by (simp add: cut)
  have len: "length (map stringify (take 50 (e # h))) = min (length h + 1) 50"
    by simp
  have rest: "e # h = take 50 (e # h) @ drop 49 h"
    by (simp add: cut)
  have same: "\<forall>x. finite_numbers x \<longrightarrow> stringify x = x"
    by (simp add: stringify_unchanged)
  have exact: "finite_numbers_list (e # h) \<longrightarrow>
        saveHistory e (Parsed (JArr h)) = Inr (Parsed (JArr (take 50 (e # h))))"
  proof
    assume "finite_numbers_list (e # h)"
    then have "finite_numbers_list (take 50 (e # h))"
      unfolding finite_numbers_list_iff by (meson in_set_takeD)
    then have "map stringify (take 50 (e # h)) = take 50 (e # h)"
      by (rule map_stringify_unchanged)
    with stored show "saveHistory e (Parsed (JArr h)) = Inr (Parsed (JArr (take 50 (e # h))))"
      by (simp only:)
  qed
  from len have bound: "length (map stringify (take 50 (e # h))) \<le> 50"
    by simp
  from stored first len bound rest same exact show ?thesis
    by (intro conjI)
qed

theorem saveHistory_bounded_witness:
  "finite_numbers_list (JStr ''new'' # replicate 50 (JStr ''old''))
   \<and> saveHistory (JStr ''new'') (Parsed (JArr (replicate 50 (JStr ''old''))))
     = Inr (Parsed (JArr (JStr ''new'' # replicate 49 (JStr ''old''))))
   \<and> length (JStr ''new'' # replicate 49 (JStr ''old'')) = 50"
proof -
  have fin: "finite_numbers_list (JStr ''new'' # replicate 50 (JStr ''old''))"
    by (simp add: finite_numbers_list_iff)
  have cut: "take 50 (JStr ''new'' # replicate 50 (JStr ''old''))
               = JStr ''new'' # replicate 49 (JStr ''old'')"
    by (simp add: take_Cons')
  from saveHistory_bounded [of "JStr ''new''" "replicate 50 (JStr ''old'')"] fin
  have "saveHistory (JStr ''new'') (Parsed (JArr (replicate 50 (JStr ''old''))))
          = Inr (Parsed (JArr (take 50 (JStr ''new'' # replicate 50 (JStr ''old'')))))"
    by blast
  with cut have stored: "saveHistory (JStr ''new'') (Parsed (JArr (replicate 50 (JStr ''old''))))
          = Inr (Parsed (JArr (JStr ''new'' # replicate 49 (JStr ''old''))))"
    by (simp only:)
  have len: "length (JStr ''new'' # replicate 49 (JStr ''old'')) = 50"
    by simp
  from fin stored len show ?thesis by (intro conjI)
qed

section \<open>Config store: what a mutation leaves alone\<close>

lemma js_get_falsy: "\<not> truthy j \<Longrightarrow> js_get j k = None"
  by (cases j) simp_all

lemma js_get_js_set_other: "k' \<noteq> k \<Longrightarrow> js_get (js_set c k x) k' = js_get c k'"
  by (cases c) (simp_all add: update_conv')

lemma js_get_Some_obj: "js_get c k = Some v \<Longrightarrow> \<exists>ms. c = JObj ms"
  by (cases c) simp_all

lemma set_service_obj:
  "set_service (JObj ms) s entry =
     Inr (js_set (JObj ms) ''services''
            (js_set (case map_of ms ''services'' of
                       Some sv \<Rightarrow> if truthy sv then sv else JObj []
                     | None \<Rightarrow> JObj []) s entry))"
  by (simp add: set_service_def)

lemma set_service_frame_top:
  assumes "set_service config s entry = Inr config'" and "k \<noteq> ''services''"
  shows "js_get config' k = js_get config k"
proof (cases config)
  case (JObj ms)
  with assms show ?thesis
    by (auto simp: set_service_obj update_conv')
next
  case (JArr xs)
  with assms show ?thesis by (simp add: set_service_def)
qed (use assms in \<open>simp_all add: set_service_def\<close>)

lemma set_service_frame_entry:
  assumes "set_service config s entry = Inr config'" and "s' \<noteq> s"
  shows "(case js_get config' ''services'' of None \<Rightarrow> None | Some sv \<Rightarrow> js_get sv s')
       = (case js_get config ''services'' of None \<Rightarrow> None | Some sv \<Rightarrow> js_get sv s')"
proof (cases config)
  case (JObj ms)
  show ?thesis
  proof (cases "map_of ms ''services''")
    case None
    with JObj assms show ?thesis
      by (auto simp: set_service_obj update_conv')
  next
    case (Some sv)
    with JObj assms show ?thesis
      by (auto simp: set_service_obj update_conv' js_get_js_set_other js_get_falsy)
  qed
next
  case (JArr xs)
  with assms show ?thesis by (simp add: set_service_def)
qed (use assms in \<open>simp_all add: set_service_def\<close>)

lemma service_entry_stringify:
  "service_entry (Parsed (stringify c)) s = map_option stringify (service_entry (Parsed c) s)"
  by (cases "js_get c ''services''")
     (simp_all add: service_entry_def config_field_def loadConfig_def js_get_stringify)

lemma config_field_stringify:
  "config_field (Parsed (stringify c)) k = map_option stringify (config_field (Parsed c) k)"
  by (simp add: config_field_def loadConfig_def js_get_stringify)

lemma saveConfig_frame_entry:
  assumes "saveConfig now s creds f = Inr f'" and "s' \<noteq> s"
  shows "service_entry f' s' = map_option stringify (service_entry f s')"
proof (cases "s = ''googleDrive''")
  case True
  with assms have f': "f' = Parsed (stringify (js_set (if truthy (loadConfig f) then loadConfig f else JObj [])
                     ''googleDrive'' (JObj (AList.update ''updatedAt'' (JStr now) creds))))"
    by (auto simp: saveConfig_def Let_def)
  have "service_entry (Parsed (js_set (if truthy (loadConfig f) then loadConfig f else JObj [])
                     ''googleDrive'' (JObj (AList.update ''updatedAt'' (JStr now) creds)))) s'
        = service_entry f s'"
    by (auto simp: service_entry_def config_field_def loadConfig_def
          js_get_js_set_other js_get_falsy split: jfile.splits)
  with f' show ?thesis by (simp only: service_entry_stringify)
next
  case False
  with assms obtain c' where
    c': "set_service (if truthy (loadConfig f) then loadConfig f else JObj []) s
           (object [(''apiKey'', map_of creds ''apiKey''), (''updatedAt'', Some (JStr now))]) = Inr c'"
    and f': "f' = Parsed (stringify c')"
    by (auto simp: saveConfig_def Let_def split: sum.splits)
  from set_service_frame_entry[OF c' assms(2)] have "service_entry (Parsed c') s' = service_entry f s'"
    by (cases "loadConfig f")
       (auto simp: service_entry_def config_field_def loadConfig_def split: if_splits)
  with f' show ?thesis by (simp only: service_entry_stringify)
qed

lemma saveConfig_frame_top:
  assumes "saveConfig now s creds f = Inr f'"
      and "k \<noteq> (if s = ''googleDrive'' then ''googleDrive'' else ''services'')"
  shows "config_field f' k = map_option stringify (config_field f k)"
proof (cases "s = ''googleDrive''")
  case True
  with assms have f': "f' = Parsed (stringify (js_set (if truthy (loadConfig f) then loadConfig f else JObj [])
                     ''googleDrive'' (JObj (AList.update ''updatedAt'' (JStr now) creds))))"
    by (auto simp: saveConfig_def Let_def)
  from True assms(2) have k: "k \<noteq> ''googleDrive''" by simp
  have "config_field (Parsed (js_set (if truthy (loadConfig f) then loadConfig f else JObj [])
                     ''googleDrive'' (JObj (AList.update ''updatedAt'' (JStr now) creds)))) k
        = config_field f k"
    using k by (auto simp: config_field_def loadConfig_def js_get_js_set_other js_get_falsy
                     split: jfile.splits)
  with f' show ?thesis by (simp only: config_field_stringify)
next
  case False
  with assms obtain c' where
    c': "set_service (if truthy (loadConfig f) then loadConfig f else JObj []) s
           (object [(''apiKey'', map_of creds ''apiKey''), (''updatedAt'', Some (JStr now))]) = Inr c'"
    and f': "f' = Parsed (stringify c')"
    by (auto simp: saveConfig_def Let_def split: sum.splits)
  from assms False have k: "k \<noteq> ''services''" by simp
  from set_service_frame_top[OF c' k] have "config_field (Parsed c') k = config_field f k"
    by (cases "loadConfig f") (auto simp: config_field_def loadConfig_def split: if_splits)
  with f' show ?thesis by (simp only: config_field_stringify)
qed

lemma service_entry_truthy:
  assumes "truthy_val (service_entry f s)"
  shows "\<exists>ms ss. loadConfig f = JObj ms \<and> map_of ms ''services'' = Some (JObj ss)
                  \<and> truthy_val (map_of ss s)"
proof -
  from assms obtain sv where sv: "js_get (loadConfig f) ''services'' = Some sv"
    and t: "truthy_val (js_get sv s)"
    by (auto simp: service_entry_def config_field_def truthy_val_def split: option.splits)
  from sv obtain ms where ms: "loadConfig f = JObj ms" by (auto dest: js_get_Some_obj)
  from t obtain ss where ss: "sv = JObj ss" by (cases sv) (auto simp: truthy_val_def)
  from sv ms ss t show ?thesis by auto
qed

lemma deleteServiceConfig_cases:
  "deleteServiceConfig s f =
     (if truthy_val (service_entry f s)
      then Parsed (stringify (js_set (loadConfig f) ''services''
                     (js_delete (the (js_get (loadConfig f) ''services'')) s)))
      else f)"
proof (cases "truthy_val (service_entry f s)")
  case True
  from service_entry_truthy[OF True] show ?thesis
    using True by (auto simp: deleteServiceConfig_def Let_def)
next
  case False
  then show ?thesis
    by (auto simp: deleteServiceConfig_def Let_def service_entry_def config_field_def
             split: option.splits)
qed

lemma deleteServiceConfig_frame_entry:
  assumes "s' \<noteq> s"
  shows "service_entry (deleteServiceConfig s f) s' =
           (if truthy_val (service_entry f s) then map_option stringify (service_entry f s')
            else service_entry f s')"
proof (cases "truthy_val (service_entry f s)")
  case True
  from service_entry_truthy[OF True] obtain ms ss where
    c: "loadConfig f = JObj ms" "map_of ms ''services'' = Some (JObj ss)" by blast
  with assms have "service_entry (Parsed (js_set (loadConfig f) ''services''
                     (js_delete (the (js_get (loadConfig f) ''services'')) s))) s'
        = service_entry f s'"
    by (simp add: service_entry_def config_field_def loadConfig_def update_conv' delete_conv')
  with True show ?thesis
    by (simp only: deleteServiceConfig_cases service_entry_stringify if_True)
next
  case False
  then show ?thesis by (simp add: deleteServiceConfig_cases)
qed

lemma deleteServiceConfig_frame_top:
  assumes "k \<noteq> ''services''"
  shows "config_field (deleteServiceConfig s f) k =
           (if truthy_val (service_entry f s) then map_option stringify (config_field f k)
            else config_field f k)"
proof (cases "truthy_val (service_entry f s)")
  case True
  from service_entry_truthy[OF True] obtain ms ss where
    c: "loadConfig f = JObj ms" "map_of ms ''services'' = Some (JObj ss)" by blast
  with assms have "config_field (Parsed (js_set (loadConfig f) ''services''
                     (js_delete (the (js_get (loadConfig f) ''services'')) s))) k
        = config_field f k"
    by (simp add: config_field_def loadConfig_def update_conv')
  with True show ?thesis
    by (simp only: deleteServiceConfig_cases config_field_stringify if_True)
next
  case False
  then show ?thesis by (simp add: deleteServiceConfig_cases)
qed

lemma deleteServiceConfig_removed:
  "service_entry (deleteServiceConfig s f) s =
     (if truthy_val (service_entry f s) then None else service_entry f s)"
proof (cases "truthy_val (service_entry f s)")
  case True
  from service_entry_truthy[OF True] obtain ms ss where
    c: "loadConfig f = JObj ms" "map_of ms ''services'' = Some (JObj ss)" by blast
  then have "service_entry (Parsed (js_set (loadConfig f) ''services''
                     (js_delete (the (js_get (loadConfig f) ''services'')) s))) s = None"
    by (simp add: service_entry_def config_field_def loadConfig_def update_conv' delete_conv')
  with True show ?thesis
    by (simp add: deleteServiceConfig_cases service_entry_stringify)
next
  case False
  then show ?thesis by (simp add: deleteServiceConfig_cases)
qed

text \<open>
  C7, as stated, fails on a stored document that holds a number that is not finite:
  every rewrite goes through \<^verbatim>\<open>JSON.stringify\<close>, which writes \<^verbatim>\<open>null\<close> for it. In the
  document above the Gofile entry has a member \<^verbatim>\<open>limit\<close> written \<^verbatim>\<open>1e400\<close>, which
  \<^verbatim>\<open>JSON.parse\<close> reads as \<^verbatim>\<open>Infinity\<close>. Saving, or deleting, the Pixeldrain key
  changes the Gofile entry: its \<^verbatim>\<open>limit\<close> becomes \<^verbatim>\<open>null\<close>.
\<close>

theorem config_rewrite_changes_infinity:
  "service_entry nonfinite_config ''gofile''
     = Some (JObj [(''apiKey'', JStr ''tok''), (''limit'', JNum ''Infinity'')])
   \<and> saveConfig ''t1'' ''pixeldrain'' [(''apiKey'', JStr ''pk'')] nonfinite_config =
       Inr (Parsed (JObj [(''services'',
              JObj [(''gofile'', JObj [(''apiKey'', JStr ''tok''), (''limit'', JNull)]),
                    (''pixeldrain'', JObj [(''apiKey'', JStr ''pk''), (''updatedAt'', JStr ''t1'')])])]))
   \<and> service_entry
         (Parsed (JObj [(''services'',
              JObj [(''gofile'', JObj [(''apiKey'', JStr ''tok''), (''limit'', JNull)]),
                    (''pixeldrain'', JObj [(''apiKey'', JStr ''pk''), (''updatedAt'', JStr ''t1'')])])]))
         ''gofile''
       = Some (JObj [(''apiKey'', JStr ''tok''), (''limit'', JNull)])
   \<and> service_entry (deleteServiceConfig ''pixeldrain'' nonfinite_config) ''gofile''
       = Some (JObj [(''apiKey'', JStr ''tok''), (''limit'', JNull)])"
  by (simp add: nonfinite_config_def saveConfig_def deleteServiceConfig_def loadConfig_def
        set_service_def object_def members_def List.map_filter_def service_entry_def
        config_field_def truthy_val_def)

text \<open>
  C7, amended. Every config mutation rewrites the whole document, yet changes only its
  own entry, up to the rewriting by \<^verbatim>\<open>JSON.stringify\<close>. For every prior config file, when
  \<^verbatim>\<open>saveConfig(s, creds)\<close> writes, the entry \<^verbatim>\<open>services[s']\<close> of every other service \<open>s'\<close>
  reads as \<^verbatim>\<open>JSON.stringify\<close> writes its prior value, and so does every top-level field
  other than the one written (\<^verbatim>\<open>googleDrive\<close> when \<open>s\<close> is \<^verbatim>\<open>googleDrive\<close>, \<^verbatim>\<open>services\<close>
  otherwise; so the \<^verbatim>\<open>googleDrive\<close> section is kept when \<open>s\<close> is a service).
  \<^verbatim>\<open>deleteServiceConfig(s)\<close> writes only when \<^verbatim>\<open>services[s]\<close> is there (truthy): then
  that entry is gone and every other service entry and every top-level field other than
  \<^verbatim>\<open>services\<close> reads as \<^verbatim>\<open>JSON.stringify\<close> writes its prior value; otherwise the file
  is left as it is. A prior value that holds no number that is not finite is written as
  it is, so it reads exactly as before.
\<close>

theorem config_mutation_frame:
  "(\<forall>f'. saveConfig now s creds f = Inr f' \<longrightarrow>
      (\<forall>s'. s' \<noteq> s \<longrightarrow> service_entry f' s' = map_option stringify (service_entry f s'))
    \<and> (\<forall>k. k \<noteq> (if s = ''googleDrive'' then ''googleDrive'' else ''services'') \<longrightarrow>
           config_field f' k = map_option stringify (config_field f k)))
   \<and> (\<forall>s'. s' \<noteq> s \<longrightarrow>
          service_entry (deleteServiceConfig s f) s' =
            (if truthy_val (service_entry f s) then map_option stringify (service_entry f s')
             else service_entry f s'))
   \<and> (\<forall>k. k \<noteq> ''services'' \<longrightarrow>
          config_field (deleteServiceConfig s f) k =
            (if truthy_val (service_entry f s) then map_option stringify (config_field f k)
             else config_field f k))
   \<and> service_entry (deleteServiceConfig s f) s =
       (if truthy_val (service_entry f s) then None else service_entry f s)
   \<and> (\<not> truthy_val (service_entry f s) \<longrightarrow> deleteServiceConfig s f = f)
   \<and> (\<forall>j. finite_numbers j \<longrightarrow> map_option stringify (Some j) = Some j)
   \<and> map_option stringify None = None"
  using saveConfig_frame_entry [of now s creds f] saveConfig_frame_top [of now s creds f]
        deleteServiceConfig_frame_entry [of _ s f] deleteServiceConfig_frame_top [of _ s f]
        deleteServiceConfig_removed [of s f] deleteServiceConfig_cases [of s f]
        stringify_unchanged
  by (intro conjI allI impI) simp_all

theorem config_mutation_frame_witness:
  "saveConfig ''t1'' ''pixeldrain'' [(''apiKey'', JStr ''pk'')] sample_config =
     Inr (Parsed (JObj [(''services'',
                         JObj [(''gofile'', JObj [(''apiKey'', JStr ''tok''), (''updatedAt'', JStr ''t0'')]),
                               (''pixeldrain'', JObj [(''apiKey'', JStr ''pk''), (''updatedAt'', JStr ''t1'')])]),
                        (''googleDrive'', JObj [(''clientId'', JStr ''id''), (''updatedAt'', JStr ''t0'')])]))
   \<and> service_entry
        (Parsed (JObj [(''services'',
                         JObj [(''gofile'', JObj [(''apiKey'', JStr ''tok''), (''updatedAt'', JStr ''t0'')]),
                               (''pixeldrain'', JObj [(''apiKey'', JStr ''pk''), (''updatedAt'', JStr ''t1'')])]),
                        (''googleDrive'', JObj [(''clientId'', JStr ''id''), (''updatedAt'', JStr ''t0'')])]))
        ''gofile''
       = service_entry sample_config ''gofile''
   \<and> config_field
        (Parsed (JObj [(''services'',
                         JObj [(''gofile'', JObj [(''apiKey'', JStr ''tok''), (''updatedAt'', JStr ''t0'')]),
                               (''pixeldrain'', JObj [(''apiKey'', JStr ''pk''), (''updatedAt'', JStr ''t1'')])]),
                        (''googleDrive'', JObj [(''clientId'', JStr ''id''), (''updatedAt'', JStr ''t0'')])]))
        ''googleDrive''
       = config_field sample_config ''googleDrive''
   \<and> service_entry (deleteServiceConfig ''gofile'' sample_config) ''gofile'' = None
   \<and> config_field (deleteServiceConfig ''gofile'' sample_config) ''googleDrive''
       = config_field sample_config ''googleDrive''
   \<and> deleteServiceConfig ''pixeldrain'' sample_config = sample_config"
proof -
  have saved: "saveConfig ''t1'' ''pixeldrain'' [(''apiKey'', JStr ''pk'')] sample_config =
     Inr (Parsed (JObj [(''services'',
                         JObj [(''gofile'', JObj [(''apiKey'', JStr ''tok''), (''updatedAt'', JStr ''t0'')]),
                               (''pixeldrain'', JObj [(''apiKey'', JStr ''pk''), (''updatedAt'', JStr ''t1'')])]),
                        (''googleDrive'', JObj [(''clientId'', JStr ''id''), (''updatedAt'', JStr ''t0'')])]))"
    by (simp add: saveConfig_def sample_config_def loadConfig_def set_service_def object_def
          members_def List.map_filter_def)
  have there: "truthy_val (service_entry sample_config ''gofile'')"
    by (simp add: service_entry_def config_field_def sample_config_def loadConfig_def truthy_val_def)
  have absent: "\<not> truthy_val (service_entry sample_config ''pixeldrain'')"
    by (simp add: service_entry_def config_field_def sample_config_def loadConfig_def truthy_val_def)
  have e: "service_entry sample_config ''gofile''
             = Some (JObj [(''apiKey'', JStr ''tok''), (''updatedAt'', JStr ''t0'')])"
    by (simp add: service_entry_def config_field_def sample_config_def loadConfig_def)
  have g: "config_field sample_config ''googleDrive''
             = Some (JObj [(''clientId'', JStr ''id''), (''updatedAt'', JStr ''t0'')])"
    by (simp add: config_field_def sample_config_def loadConfig_def)
  from saved there absent e g
       config_mutation_frame [of "''t1''" "''pixeldrain''" "[(''apiKey'', JStr ''pk'')]" sample_config]
       config_mutation_frame [of "''t1''" "''gofile''" "[]" sample_config]
  show ?thesis by simp
qed

section \<open>Credential lookup in the two entry points\<close>

text \<open>
  Outside the old config format the two lookups agree: the first entry point's API key
  is the \<^verbatim>\<open>apiKey\<close> of the second entry point's credentials, and neither writes.
\<close>

lemma getServiceCredentials_new:
  assumes "s \<noteq> ''googleDrive''"
  shows "getServiceCredentials now s f =
     Inr ((case js_get (loadConfig f) ''services'' of
             None \<Rightarrow> JNull
           | Some services \<Rightarrow>
               (case js_get services s of
                  None \<Rightarrow> JNull
                | Some entry \<Rightarrow> if truthy entry then entry else JNull)), f)"
proof (cases "js_get (loadConfig f) ''services''")
  case None
  with assms show ?thesis
    by (simp add: getServiceCredentials_def Let_def)
next
  case (Some services)
  then have t: "truthy (loadConfig f)" by (cases "loadConfig f") simp_all
  show ?thesis
  proof (cases "js_get services s")
    case None
    with Some assms t show ?thesis
      by (simp add: getServiceCredentials_def Let_def)
  next
    case (Some entry)
    then have "truthy services" by (cases services) simp_all
    with Some \<open>js_get (loadConfig f) ''services'' = Some services\<close> assms t show ?thesis
      by (simp add: getServiceCredentials_def Let_def truthy_val_def)
  qed
qed

lemma getServiceApiKey_new:
  assumes "\<not> (truthy_val (config_field f ''apiKey'') \<and> \<not> truthy_val (config_field f ''services'')
               \<and> s = ''pixeldrain'')"
  shows "getServiceApiKey now s f =
     Inr ((case js_get (loadConfig f) ''services'' of
             None \<Rightarrow> Some JNull
           | Some services \<Rightarrow>
               (case js_get services s of
                  None \<Rightarrow> Some JNull
                | Some entry \<Rightarrow> if truthy entry then js_get entry ''apiKey'' else Some JNull)), f)"
proof -
  have legacy: "\<not> (truthy_val (js_get (loadConfig f) ''apiKey'')
                   \<and> \<not> truthy_val (js_get (loadConfig f) ''services'') \<and> s = ''pixeldrain'')"
    using assms by (simp add: config_field_def)
  show ?thesis
  proof (cases "js_get (loadConfig f) ''services''")
    case None
    then have "\<not> truthy_val (js_get (loadConfig f) ''services'')" by (simp add: truthy_val_def)
    with None legacy show ?thesis
      by (auto simp add: getServiceApiKey_def Let_def)
  next
    case (Some services)
    then have t: "truthy (loadConfig f)" by (cases "loadConfig f") simp_all
    show ?thesis
    proof (cases "js_get services s")
      case None
      with Some legacy t show ?thesis
        by (auto simp add: getServiceApiKey_def Let_def truthy_val_def)
    next
      case (Some entry)
      then have ts: "truthy services" by (cases services) simp_all
      then have "truthy_val (js_get (loadConfig f) ''services'')"
        using \<open>js_get (loadConfig f) ''services'' = Some services\<close> by (simp add: truthy_val_def)
      with Some \<open>js_get (loadConfig f) ''services'' = Some services\<close> t ts show ?thesis
        by (simp add: getServiceApiKey_def Let_def)
    qed
  qed
qed

lemma credential_lookup_agrees_on_new_format:
  assumes "s \<noteq> ''googleDrive''"
      and "\<not> (truthy_val (config_field f ''apiKey'') \<and> \<not> truthy_val (config_field f ''services'')
               \<and> s = ''pixeldrain'')"
  shows "\<exists>c. getServiceCredentials now s f = Inr (c, f)
            \<and> getServiceApiKey now s f = Inr (credentials_apiKey c, f)"
  unfolding getServiceCredentials_new[OF assms(1)] getServiceApiKey_new[OF assms(2)]
  by (auto simp: credentials_apiKey_def split: option.splits)

lemma getServiceCredentials_reads:
  "\<exists>c. getServiceCredentials now s f = Inr (c, f)"
proof (cases "s = ''googleDrive''")
  case True
  then show ?thesis by (simp add: getServiceCredentials_def Let_def)
next
  case False
  then show ?thesis by (simp add: getServiceCredentials_new)
qed
text \<open>
  C9 (the code departs from the claim). The claim: for every stored configuration and
  every service in \<^verbatim>\<open>pixeldrain\<close>, \<^verbatim>\<open>gofile\<close>, the key \<^verbatim>\<open>getServiceApiKey\<close> returns
  in the first entry point equals the \<^verbatim>\<open>apiKey\<close> of what \<^verbatim>\<open>getServiceCredentials\<close>
  returns in the second; in particular both return the old top-level key for
  \<^verbatim>\<open>pixeldrain\<close> when the configuration holds a top-level \<^verbatim>\<open>apiKey\<close> and no
  \<^verbatim>\<open>services\<close> object. On exactly that configuration the first entry point returns the
  key and migrates the file, while the second returns \<^verbatim>\<open>null\<close> and leaves the file as
  it is: its branch for the old format is nested under the test that \<^verbatim>\<open>services\<close>
  exists.
\<close>

theorem legacy_key_lookup_differs:
  "getServiceApiKey ''t'' ''pixeldrain'' legacy_config =
     Inr (Some (JStr ''abc''),
          Parsed (JObj [(''apiKey'', JStr ''abc''),
                        (''services'',
                         JObj [(''pixeldrain'',
                                JObj [(''apiKey'', JStr ''abc''), (''updatedAt'', JStr ''t'')])])]))
   \<and> getServiceCredentials ''t'' ''pixeldrain'' legacy_config = Inr (JNull, legacy_config)
   \<and> credentials_apiKey JNull = Some JNull"
  by (simp add: getServiceApiKey_def getServiceCredentials_def legacy_config_def loadConfig_def
        truthy_val_def saveConfig_part000_def set_service_def object_def members_def List.map_filter_def
        credentials_apiKey_def)

section \<open>Rounding to a double\<close>

text \<open>
  Facts about \<open>round_double\<close>: an integer of magnitude below \<open>2 ^ 53\<close> is a double, the
  rounding keeps the sign, and a positive number within the range is rounded to a
  positive double.
\<close>

lemma pow2_pos: "pow2 k > 0"
  by (simp add: pow2_def)

lemma round_half_even_int: "round_half_even (of_int k) = k"
  by (simp add: round_half_even_def)

lemma round_half_even_nonneg: "x \<ge> 0 \<Longrightarrow> round_half_even x \<ge> 0"
  by (auto simp: round_half_even_def Let_def)

lemma round_half_even_pos: "x \<ge> 1 \<Longrightarrow> round_half_even x \<ge> 1"
  by (auto simp: round_half_even_def Let_def)

lemma ilog2_le:
  assumes "a > 0"
  shows "pow2 (ilog2 a) \<le> a"
proof (cases "a \<ge> 1")
  case True
  then have f: "\<lfloor>a\<rfloor> > 0" by linarith
  from bitlen_bounds[OF f] have "(2::int) ^ nat (bitlen \<lfloor>a\<rfloor> - 1) \<le> \<lfloor>a\<rfloor>" by simp
  then have "of_int ((2::int) ^ nat (bitlen \<lfloor>a\<rfloor> - 1)) \<le> (of_int \<lfloor>a\<rfloor> :: rat)"
    by (simp only: of_int_le_iff)
  also have "\<dots> \<le> a" by simp
  finally have "(2::rat) ^ nat (bitlen \<lfloor>a\<rfloor> - 1) \<le> a" by simp
  moreover from f have "bitlen \<lfloor>a\<rfloor> - 1 \<ge> 0"
    using bitlen_eq_zero_iff[of "\<lfloor>a\<rfloor>"] bitlen_nonneg[of "\<lfloor>a\<rfloor>"] by linarith
  ultimately show ?thesis using True by (simp add: ilog2_def pow2_def)
next
  case False
  with assms have r: "1 / a > 1" by simp
  define m where "m = \<lceil>1 / a\<rceil> - 1"
  from r have m: "m > 0" unfolding m_def by linarith
  from bitlen_bounds[OF m] have "m < 2 ^ nat (bitlen m)" by simp
  then have "m + 1 \<le> 2 ^ nat (bitlen m)" by simp
  then have "(of_int (m + 1) :: rat) \<le> of_int (2 ^ nat (bitlen m))"
    by (simp only: of_int_le_iff)
  then have "(of_int \<lceil>1 / a\<rceil> :: rat) \<le> 2 ^ nat (bitlen m)" by (simp add: m_def)
  moreover have "1 / a \<le> of_int \<lceil>1 / a\<rceil>" by simp
  ultimately have "1 / a \<le> 2 ^ nat (bitlen m)" by linarith
  with assms have "1 / 2 ^ nat (bitlen m) \<le> a"
    by (simp add: field_simps)
  moreover have "bitlen m > 0" using m bitlen_eq_zero_iff[of m] bitlen_nonneg[of m] by linarith
  ultimately show ?thesis using False by (simp add: ilog2_def pow2_def m_def)
qed

lemma ilog2_small:
  assumes "0 < a" "a < 2 ^ 53"
  shows "ilog2 a \<le> 52"
proof (cases "a \<ge> 1")
  case True
  from assms have "\<lfloor>a\<rfloor> < 2 ^ 53" by (simp add: floor_less_iff)
  then have "bitlen \<lfloor>a\<rfloor> \<le> 53" by (simp add: bitlen_le_iff_power)
  with True show ?thesis by (simp add: ilog2_def)
next
  case False
  then show ?thesis using bitlen_nonneg[of "\<lceil>1 / a\<rceil> - 1"] by (simp add: ilog2_def)
qed

lemma pow2_powi: "pow2 k = 2 powi k"
  by (simp add: pow2_def power_int_def inverse_eq_divide power_one_over)

lemma pow2_mono: "j \<le> k \<Longrightarrow> pow2 j \<le> pow2 k"
  by (simp add: pow2_powi power_int_increasing)

lemma of_int_div_pow2:
  assumes "k \<le> 0"
  shows "of_int i / pow2 k = of_int (i * 2 ^ nat (- k))"
  using assms by (simp add: pow2_def)

lemma round_double_minus:
  "round_double (- q) =
     (case round_double q of Fin r \<Rightarrow> Fin (- r) | PInf \<Rightarrow> NInf | NInf \<Rightarrow> PInf | NaN \<Rightarrow> NaN)"
  by (cases "q = 0"; cases "q > 0") (auto simp: round_double_def Let_def)

lemma round_double_pos_int:
  assumes "0 < i" "i < 2 ^ 53"
  shows "round_double (of_int i) = Fin (of_int i)"
proof -
  let ?a = "of_int i :: rat"
  from assms(2) have "?a < of_int (2 ^ 53)" by (simp only: of_int_less_iff)
  with assms(1) have a: "0 < ?a" "?a < 2 ^ 53" "\<bar>?a\<bar> = ?a"
    by simp_all
  from assms have ge1: "?a \<ge> 1" by simp
  define e where "e = ilog2 ?a"
  from ilog2_small[OF a(1,2)] have e52: "e \<le> 52" by (simp add: e_def)
  from ge1 have e0: "e \<ge> 0" using bitlen_nonneg[of i] assms bitlen_eq_zero_iff[of i]
    by (simp add: e_def ilog2_def)
  from e0 have emax: "max e (- 1022) = e" by simp
  from e52 have k: "e - 52 \<le> 0" by simp
  have q: "?a / pow2 (e - 52) = of_int (i * 2 ^ nat (- (e - 52)))"
    by (rule of_int_div_pow2[OF k])
  have undo: "of_int (i * 2 ^ nat (- (e - 52))) * pow2 (e - 52) = ?a"
    using q pow2_pos[of "e - 52"] by (metis nonzero_eq_divide_eq less_irrefl)
  from assms e52 e0 show ?thesis
    unfolding round_double_def Let_def a(3) e_def[symmetric] emax q round_half_even_int undo
    by simp
qed

lemma round_double_int:
  assumes "\<bar>i\<bar> < 2 ^ 53"
  shows "round_double (of_int i) = Fin (of_int i)"
proof -
  consider "i = 0" | "0 < i" | "i < 0" by linarith
  then show ?thesis
  proof cases
    case 1
    then show ?thesis by (simp add: round_double_def)
  next
    case 2
    with assms show ?thesis by (simp add: round_double_pos_int)
  next
    case 3
    with assms have "round_double (of_int (- i)) = Fin (of_int (- i))"
      by (intro round_double_pos_int) simp_all
    then have "round_double (- of_int i) = Fin (- of_int i)" by simp
    then show ?thesis
      by (simp add: round_double_minus split: jsnum.splits)
  qed
qed

lemma round_double_nonneg:
  assumes "q \<ge> 0"
  shows "round_double q = PInf \<or> (\<exists>r\<ge>0. round_double q = Fin r)"
proof (cases "q = 0")
  case True
  then show ?thesis by (simp add: round_double_def)
next
  case False
  with assms have "q > 0" by simp
  then show ?thesis
    using pow2_pos[of "max (ilog2 \<bar>q\<bar>) (- 1022) - 52"]
          round_half_even_nonneg[of "\<bar>q\<bar> / pow2 (max (ilog2 \<bar>q\<bar>) (- 1022) - 52)"]
    by (auto simp: round_double_def Let_def)
qed

lemma round_double_pos:
  assumes "pow2 (- 1074) \<le> q" "q < 2 ^ 53"
  shows "\<exists>r>0. round_double q = Fin r"
proof -
  from assms(1) pow2_pos[of "- 1074"] have q: "q > 0" by linarith
  then have a: "\<bar>q\<bar> = q" by simp
  define e where "e = max (ilog2 q) (- 1022)"
  from ilog2_small[OF q assms(2)] have e52: "e \<le> 52" by (simp add: e_def)
  have ulp: "pow2 (e - 52) \<le> q"
  proof (cases "ilog2 q \<ge> - 1022")
    case True
    then have "e = ilog2 q" by (simp add: e_def)
    then have "pow2 (e - 52) \<le> pow2 (ilog2 q)" by (simp add: pow2_mono)
    with ilog2_le[OF q] show ?thesis by linarith
  next
    case False
    then have "e = - 1022" by (simp add: e_def)
    then have "pow2 (e - 52) = pow2 (- 1074)" by simp
    with assms(1) show ?thesis by (simp only:)
  qed
  with pow2_pos[of "e - 52"] have "q / pow2 (e - 52) \<ge> 1" by (simp add: field_simps)
  then have m: "round_half_even (q / pow2 (e - 52)) \<ge> 1" by (rule round_half_even_pos)
  then have "0 < of_int (round_half_even (q / pow2 (e - 52))) * pow2 (e - 52)"
    using pow2_pos[of "e - 52"] by simp
  with q e52 show ?thesis
    unfolding round_double_def Let_def a e_def[symmetric]
    by simp
qed

lemma num_safe: "\<bar>i\<bar> < 2 ^ 53 \<Longrightarrow> num i = Fin (of_int i)"
  by (simp add: num_def round_double_int)

lemma jsub_safe:
  assumes "\<bar>a\<bar> < 2 ^ 53" "\<bar>b\<bar> < 2 ^ 53" "\<bar>a - b\<bar> < 2 ^ 53"
  shows "jsub (num a) (num b) = Fin (of_int (a - b))"
proof -
  have "jsub (num a) (num b) = round_double (of_int (a - b))"
    using assms(1,2) by (simp add: num_safe)
  with assms(3) show ?thesis by (simp only: round_double_int)
qed

lemma timeDiff_positive:
  assumes "0 \<le> lastTime st" "lastTime st < now" "now < 2 ^ 53"
  shows "timeDiff st now = round_double (of_int (now - lastTime st) / 1000)"
    and "jgt (timeDiff st now) (Fin 0)"
proof -
  from assms have safe: "\<bar>now\<bar> < 2 ^ 53" "\<bar>lastTime st\<bar> < 2 ^ 53" "\<bar>now - lastTime st\<bar> < 2 ^ 53"
    by simp_all
  from jsub_safe[OF safe] show td: "timeDiff st now = round_double (of_int (now - lastTime st) / 1000)"
    by (simp add: timeDiff_def)
  let ?q = "of_int (now - lastTime st) / 1000 :: rat"
  from assms have d: "1 \<le> now - lastTime st" "now - lastTime st < 2 ^ 53" by simp_all
  from d(1) have "(1::rat) \<le> of_int (now - lastTime st)" by simp
  then have lo: "1 / 1024 \<le> ?q" by simp
  have "pow2 (- 1074) \<le> pow2 (- 10)" by (rule pow2_mono) simp
  also have "pow2 (- 10) = 1 / 1024" by (simp add: pow2_def)
  finally have low: "pow2 (- 1074) \<le> ?q" using lo by linarith
  from d(2) have "(of_int (now - lastTime st) :: rat) < of_int (2 ^ 53)" by (simp only: of_int_less_iff)
  then have "(of_int (now - lastTime st) :: rat) < 2 ^ 53" by simp
  moreover from d(1) have "?q \<le> of_int (now - lastTime st)" by simp
  ultimately have high: "?q < 2 ^ 53" by linarith
  from round_double_pos[OF low high] obtain r where "0 < r" "round_double ?q = Fin r" by blast
  with td show "jgt (timeDiff st now) (Fin 0)" by simp
qed

section \<open>The progress computation\<close>

text \<open>A sample with a known total, taken when the computed \<open>timeDiff\<close> is positive.\<close>

lemma onUploadProgress_sample:
  assumes "total ev = Some n" and "n \<noteq> 0" and "jgt (timeDiff st now) (Fin 0)"
  shows "onUploadProgress st ev now =
     (let speed = jdiv (jsub (num (loaded ev)) (num (lastLoaded st))) (timeDiff st now);
          secs = jround (jdiv (jsub (num n) (num (loaded ev))) speed);
          mins = jfloor (jdiv secs (Fin 60));
          sec = jmod secs (Fin 60)
      in (\<lparr>lastLoaded = loaded ev, lastTime = now\<rparr>,
          Some \<lparr>percentCompleted = jround (jdiv (jmul (num (loaded ev)) (Fin 100)) (num n)),
                speedBps = speed,
                speedMbps = jdiv speed (jmul (Fin 1024) (Fin 1024)),
                etaSeconds = secs, etaMin = mins, etaSec = sec,
                etaDisplay = (if jgt mins (Fin 0) then MinSec mins sec else SecOnly sec)\<rparr>))"
  using assms
  by (simp add: onUploadProgress_def Let_def)

text \<open>
  C2. At every progress sample where the total is known (defined and not zero) and the
  time since the previous sample, \<open>timeDiff\<close>, is strictly positive, the speed is the
  quotient of \<open>loaded - lastLoaded\<close> by \<open>timeDiff\<close>, in bytes per second, \<^verbatim>\<open>etaSeconds\<close>
  is \<^verbatim>\<open>Math.round\<close> of the quotient of \<open>total - loaded\<close> by the speed (differences and
  quotients being those of the doubles), and the sample state becomes the current byte
  count and time; so the next such sample is computed relative to this one. By lemma
  \<open>timeDiff_positive\<close>, \<open>timeDiff\<close> is strictly positive whenever the clock has advanced,
  and by lemma \<open>jsub_safe\<close> the differences of byte counts below \<open>2 ^ 53\<close> are exact.
\<close>

theorem progress_sample_relative:
  assumes "total ev1 = Some n1" and "n1 \<noteq> 0" and "jgt (timeDiff st t1) (Fin 0)"
      and "total ev2 = Some n2" and "n2 \<noteq> 0"
      and "jgt (timeDiff \<lparr>lastLoaded = loaded ev1, lastTime = t1\<rparr> t2) (Fin 0)"
  shows "\<exists>v1 v2.
           onUploadProgress st ev1 t1 = (\<lparr>lastLoaded = loaded ev1, lastTime = t1\<rparr>, Some v1)
         \<and> speedBps v1 = jdiv (jsub (num (loaded ev1)) (num (lastLoaded st))) (timeDiff st t1)
         \<and> etaSeconds v1 = jround (jdiv (jsub (num n1) (num (loaded ev1))) (speedBps v1))
         \<and> onUploadProgress (fst (onUploadProgress st ev1 t1)) ev2 t2
              = (\<lparr>lastLoaded = loaded ev2, lastTime = t2\<rparr>, Some v2)
         \<and> speedBps v2 = jdiv (jsub (num (loaded ev2)) (num (loaded ev1)))
                             (timeDiff \<lparr>lastLoaded = loaded ev1, lastTime = t1\<rparr> t2)
         \<and> etaSeconds v2 = jround (jdiv (jsub (num n2) (num (loaded ev2))) (speedBps v2))"
  by (simp add: onUploadProgress_sample[OF assms(1-3)]
          onUploadProgress_sample[OF assms(4-6)] Let_def)

text \<open>
  Two samples of an upload of 501009 bytes: 9 bytes after 18 ms, then 1000 bytes more
  after another 9 ms. The speeds are the doubles \<^verbatim>\<open>500.00000000000006\<close> and
  \<^verbatim>\<open>111111.11111111112\<close>; the second estimate is \<^verbatim>\<open>Math.round(4.499999999999999)\<close>.
\<close>

theorem progress_sample_relative_witness:
  "\<exists>v1 v2.
      onUploadProgress \<lparr>lastLoaded = 0, lastTime = 1700000000000\<rparr>
          \<lparr>loaded = 9, total = Some 501009\<rparr> 1700000000018
        = (\<lparr>lastLoaded = 9, lastTime = 1700000000018\<rparr>, Some v1)
    \<and> speedBps v1 = Fin (8796093022208001 / 17592186044416)
    \<and> etaSeconds v1 = Fin 1002
    \<and> onUploadProgress \<lparr>lastLoaded = 9, lastTime = 1700000000018\<rparr>
          \<lparr>loaded = 1009, total = Some 501009\<rparr> 1700000000027
        = (\<lparr>lastLoaded = 1009, lastTime = 1700000000027\<rparr>, Some v2)
    \<and> speedBps v2 = Fin (954437176888889 / 8589934592)
    \<and> etaSeconds v2 = Fin 4"
proof -
  let ?st = "\<lparr>lastLoaded = 0, lastTime = 1700000000000\<rparr>"
  let ?ev1 = "\<lparr>loaded = 9, total = Some 501009\<rparr>"
  let ?ev2 = "\<lparr>loaded = 1009, total = Some 501009\<rparr>"
  have t1: "timeDiff ?st 1700000000018 = Fin (5188146770730811 / 288230376151711744)"
    by code_simp
  have t2: "timeDiff \<lparr>lastLoaded = 9, lastTime = 1700000000018\<rparr> 1700000000027
              = Fin (5188146770730811 / 576460752303423488)"
    by code_simp
  have s1: "jdiv (jsub (num 9) (num 0)) (Fin (5188146770730811 / 288230376151711744))
              = Fin (8796093022208001 / 17592186044416)"
    by code_simp
  have e1: "jround (jdiv (jsub (num 501009) (num 9)) (Fin (8796093022208001 / 17592186044416)))
              = Fin 1002"
    by code_simp
  have s2: "jdiv (jsub (num 1009) (num 9)) (Fin (5188146770730811 / 576460752303423488))
              = Fin (954437176888889 / 8589934592)"
    by code_simp
  have e2: "jround (jdiv (jsub (num 501009) (num 1009)) (Fin (954437176888889 / 8589934592)))
              = Fin 4"
    by code_simp
  have h: "total ?ev1 = Some 501009" "(501009::int) \<noteq> 0" "total ?ev2 = Some 501009"
    by simp_all
  have p1: "jgt (timeDiff ?st 1700000000018) (Fin 0)"
    by (simp add: t1)
  have p2: "jgt (timeDiff \<lparr>lastLoaded = loaded ?ev1, lastTime = 1700000000018\<rparr> 1700000000027) (Fin 0)"
    by (simp add: t2)
  from progress_sample_relative [OF h(1) h(2) p1 h(3) h(2) p2]
  obtain v1 v2 where r:
    "onUploadProgress ?st ?ev1 1700000000018
        = (\<lparr>lastLoaded = loaded ?ev1, lastTime = 1700000000018\<rparr>, Some v1)"
    "speedBps v1 = jdiv (jsub (num (loaded ?ev1)) (num (lastLoaded ?st))) (timeDiff ?st 1700000000018)"
    "etaSeconds v1 = jround (jdiv (jsub (num 501009) (num (loaded ?ev1))) (speedBps v1))"
    "onUploadProgress (fst (onUploadProgress ?st ?ev1 1700000000018)) ?ev2 1700000000027
        = (\<lparr>lastLoaded = loaded ?ev2, lastTime = 1700000000027\<rparr>, Some v2)"
    "speedBps v2 = jdiv (jsub (num (loaded ?ev2)) (num (loaded ?ev1)))
                     (timeDiff \<lparr>lastLoaded = loaded ?ev1, lastTime = 1700000000018\<rparr> 1700000000027)"
    "etaSeconds v2 = jround (jdiv (jsub (num 501009) (num (loaded ?ev2))) (speedBps v2))"
    by blast
  from r(2) have a: "speedBps v1 = Fin (8796093022208001 / 17592186044416)"
    by (simp add: t1 s1)
  from r(3) have b: "etaSeconds v1 = Fin 1002"
    by (simp add: a e1)
  from r(5) have c: "speedBps v2 = Fin (954437176888889 / 8589934592)"
    by (simp add: t2 s2)
  from r(6) have d: "etaSeconds v2 = Fin 4"
    by (simp add: c e2)
  from r(1) have f: "onUploadProgress ?st ?ev1 1700000000018
        = (\<lparr>lastLoaded = 9, lastTime = 1700000000018\<rparr>, Some v1)"
    by simp
  from r(4) f have g: "onUploadProgress \<lparr>lastLoaded = 9, lastTime = 1700000000018\<rparr> ?ev2 1700000000027
        = (\<lparr>lastLoaded = 1009, lastTime = 1700000000027\<rparr>, Some v2)"
    by simp
  from f a b g c d show ?thesis by blast
qed

text \<open>
  No shown number is ever below zero, and \<^verbatim>\<open>etaSec\<close> never reaches 60: for byte counts
  below \<open>2 ^ 53\<close> with \<open>0 \<le> lastLoaded \<le> loaded \<le> total\<close>, each of the speed,
  \<^verbatim>\<open>etaSeconds\<close> and \<^verbatim>\<open>etaMin\<close> is a number that is at least 0, plus infinity, or not a
  number, and \<^verbatim>\<open>etaSec\<close> is a number from 0 up to but not including 60, or not a number.
\<close>

lemma trunc_nonneg_int: "0 \<le> n \<Longrightarrow> trunc (of_int n / 60) = n div 60"
proof -
  assume "0 \<le> n"
  then have "(0::rat) \<le> of_int n / 60" by simp
  then have "trunc (of_int n / 60) = \<lfloor>(of_int n :: rat) / of_int 60\<rfloor>" by (simp add: trunc_def)
  also have "\<dots> = n div 60" by (rule floor_divide_of_int_eq)
  finally show ?thesis .
qed

lemma jgt_zero_cases: "jgt x (Fin 0) \<Longrightarrow> x = PInf \<or> (\<exists>t>0. x = Fin t)"
  by (cases x) simp_all

lemma jdiv_by_positive:
  assumes "0 \<le> a" and "y = PInf \<or> (\<exists>t>0. y = Fin t)"
  shows "jdiv (Fin a) y = PInf \<or> (\<exists>r\<ge>0. jdiv (Fin a) y = Fin r)"
proof -
  from assms(2) consider "y = PInf" | t where "0 < t" "y = Fin t" by blast
  then show ?thesis
  proof cases
    case 1
    then show ?thesis by simp
  next
    case 2
    with assms(1) have "0 \<le> a / t" by simp
    from round_double_nonneg[OF this] 2 show ?thesis by simp
  qed
qed

lemma jdiv_by_nonneg:
  assumes "0 \<le> a" and "y = PInf \<or> (\<exists>s\<ge>0. y = Fin s)"
  shows "jdiv (Fin a) y = NaN \<or> jdiv (Fin a) y = PInf \<or> (\<exists>r\<ge>0. jdiv (Fin a) y = Fin r)"
proof -
  from assms(2) consider "y = PInf" | "y = Fin 0" | s where "0 < s" "y = Fin s"
    by (metis less_eq_rat_def)
  then show ?thesis
  proof cases
    case 1
    then show ?thesis by simp
  next
    case 2
    with assms(1) show ?thesis by (cases "a = 0") simp_all
  next
    case 3
    with jdiv_by_positive[OF assms(1), of y] show ?thesis by blast
  qed
qed

lemma jround_cases:
  assumes "z = NaN \<or> z = PInf \<or> (\<exists>r\<ge>0. z = Fin r)"
  shows "jround z = NaN \<or> jround z = PInf \<or> (\<exists>k\<ge>0. jround z = Fin (of_int k))"
proof -
  from assms consider "z = NaN" | "z = PInf" | r where "0 \<le> r" "z = Fin r" by blast
  then show ?thesis
  proof cases
    case 3
    then have "0 \<le> r + 1 / 2" by simp
    then have "0 \<le> \<lfloor>r + 1 / 2\<rfloor>" by (simp only: zero_le_floor)
    with 3 show ?thesis by simp
  qed simp_all
qed

lemma eta_minutes_seconds:
  assumes "secs = NaN \<or> secs = PInf \<or> (\<exists>k\<ge>0. secs = Fin (of_int k))"
  shows "\<not> jgt (Fin 0) (jfloor (jdiv secs (Fin 60)))"
    and "\<not> jgt (Fin 0) (jmod secs (Fin 60))"
    and "\<not> jge (jmod secs (Fin 60)) (Fin 60)"
proof -
  from assms consider "secs = NaN" | "secs = PInf" | k :: int where "0 \<le> k" "secs = Fin (of_int k)"
    by blast
  then have "\<not> jgt (Fin 0) (jfloor (jdiv secs (Fin 60)))
             \<and> \<not> jgt (Fin 0) (jmod secs (Fin 60)) \<and> \<not> jge (jmod secs (Fin 60)) (Fin 60)"
  proof cases
    case 1
    then show ?thesis by (simp add: jge_def)
  next
    case 2
    then show ?thesis by (simp add: jge_def)
  next
    case 3
    from 3(1) have "(0::rat) \<le> of_int k / 60" by simp
    from round_double_nonneg[OF this]
    have mins: "\<not> jgt (Fin 0) (jfloor (jdiv (Fin (of_int k)) (Fin 60)))"
      by auto
    have "(of_int k :: rat) - 60 * of_int (k div 60) = of_int (k - 60 * (k div 60))" by simp
    also have "k - 60 * (k div 60) = k mod 60" by (simp add: minus_mult_div_eq_mod)
    finally have sec: "jmod (Fin (of_int k)) (Fin 60) = Fin (of_int (k mod 60))"
      using 3(1) by (simp add: trunc_nonneg_int)
    have "k mod 60 < 60" by simp
    then have m60: "\<not> 60 < k mod 60" "k mod 60 \<noteq> 60" by linarith+
    have "\<not> jgt (Fin 0) (Fin (of_int (k mod 60)))"
      and "\<not> jge (Fin (of_int (k mod 60))) (Fin 60)"
      by (simp_all add: jge_def m60)
    with mins sec 3(2) show ?thesis by (simp only:) simp
  qed
  then show "\<not> jgt (Fin 0) (jfloor (jdiv secs (Fin 60)))"
    and "\<not> jgt (Fin 0) (jmod secs (Fin 60))"
    and "\<not> jge (jmod secs (Fin 60)) (Fin 60)"
    by simp_all
qed

lemma eta_never_negative:
  assumes "total ev = Some n" and "jgt (timeDiff st now) (Fin 0)"
      and "0 \<le> lastLoaded st" and "lastLoaded st \<le> loaded ev" and "loaded ev \<le> n"
      and "n \<noteq> 0" and "n < 2 ^ 53"
  shows "\<exists>v. snd (onUploadProgress st ev now) = Some v
           \<and> \<not> jgt (Fin 0) (speedBps v) \<and> \<not> jgt (Fin 0) (etaSeconds v)
           \<and> \<not> jgt (Fin 0) (etaMin v) \<and> \<not> jgt (Fin 0) (etaSec v)
           \<and> \<not> jge (etaSec v) (Fin 60)"
proof -
  from assms have safe: "\<bar>loaded ev\<bar> < 2 ^ 53" "\<bar>lastLoaded st\<bar> < 2 ^ 53"
      "\<bar>loaded ev - lastLoaded st\<bar> < 2 ^ 53" "\<bar>n\<bar> < 2 ^ 53" "\<bar>n - loaded ev\<bar> < 2 ^ 53"
    by simp_all
  define speed where "speed = jdiv (jsub (num (loaded ev)) (num (lastLoaded st))) (timeDiff st now)"
  define secs where "secs = jround (jdiv (jsub (num n) (num (loaded ev))) speed)"
  have d: "jsub (num (loaded ev)) (num (lastLoaded st)) = Fin (of_int (loaded ev - lastLoaded st))"
    by (rule jsub_safe[OF safe(1,2,3)])
  have r: "jsub (num n) (num (loaded ev)) = Fin (of_int (n - loaded ev))"
    by (rule jsub_safe[OF safe(4,1,5)])
  from assms(4) have d0: "(0::rat) \<le> of_int (loaded ev - lastLoaded st)" by simp
  from assms(5) have r0: "(0::rat) \<le> of_int (n - loaded ev)" by simp
  from jdiv_by_positive[OF d0 jgt_zero_cases[OF assms(2)]]
  have sp: "speed = PInf \<or> (\<exists>s\<ge>0. speed = Fin s)"
    by (simp add: speed_def d)
  from jround_cases[OF jdiv_by_nonneg[OF r0 sp]]
  have se: "secs = NaN \<or> secs = PInf \<or> (\<exists>k\<ge>0. secs = Fin (of_int k))"
    by (simp add: secs_def r)
  note sample = onUploadProgress_sample[OF assms(1) assms(6) assms(2)]
  obtain v where v: "snd (onUploadProgress st ev now) = Some v"
    by (simp add: sample Let_def)
  have f1: "speedBps v = speed"
    using v by (auto simp: sample Let_def speed_def)
  have f2: "etaSeconds v = secs"
    using v by (auto simp: sample Let_def speed_def secs_def)
  have f3: "etaMin v = jfloor (jdiv secs (Fin 60))"
    using v by (auto simp: sample Let_def speed_def secs_def)
  have f4: "etaSec v = jmod secs (Fin 60)"
    using v by (auto simp: sample Let_def speed_def secs_def)
  from sp have g1: "\<not> jgt (Fin 0) speed" by auto
  from se have g2: "\<not> jgt (Fin 0) secs" by auto
  from v f1 f2 f3 f4 g1 g2 eta_minutes_seconds[OF se] show ?thesis
    by simp
qed

text \<open>
  C8 (the code departs from the claim). The claim: for every sample with
  \<open>lastLoaded \<le> loaded \<le> total\<close> and \<open>timeDiff > 0\<close> the speed, \<^verbatim>\<open>etaSeconds\<close> and
  \<^verbatim>\<open>etaMin\<close> are at least 0 and \<open>0 \<le> etaSec < 60\<close>. A sample that reports no new
  bytes (\<open>loaded = lastLoaded\<close>, here 100 of 200 bytes, one second after the previous
  sample) satisfies the hypotheses; the callback guards the division by \<open>timeDiff\<close> but
  not the division by the speed, which is then 0: \<^verbatim>\<open>etaSeconds\<close> and \<^verbatim>\<open>etaMin\<close> are
  infinite and \<^verbatim>\<open>etaSec\<close> is not a number, for which neither \<open>0 \<le> etaSec\<close> nor
  \<open>etaSec < 60\<close> holds.
\<close>

theorem eta_without_progress:
  "onUploadProgress \<lparr>lastLoaded = 100, lastTime = 0\<rparr> \<lparr>loaded = 100, total = Some 200\<rparr> 1000 =
     (\<lparr>lastLoaded = 100, lastTime = 1000\<rparr>,
      Some \<lparr>percentCompleted = Fin 50, speedBps = Fin 0, speedMbps = Fin 0,
            etaSeconds = PInf, etaMin = PInf, etaSec = NaN, etaDisplay = MinSec PInf NaN\<rparr>)
   \<and> \<not> jge NaN (Fin 0) \<and> \<not> jgt (Fin 60) NaN"
  by code_simp

section \<open>The wait for the request\<close>

lemma spinner_only: "is_spinner x \<Longrightarrow> \<not> is_request x \<and> \<not> is_write x \<and> x \<noteq> AbortRequest"
  by (cases x) simp_all


lemma spinners_no_request: "list_all is_spinner tr \<Longrightarrow> \<not> list_ex is_request tr"
  by (induction tr) (auto dest: spinner_only)

lemma list_ex_snoc: "list_ex P (xs @ [x]) = (list_ex P xs \<or> P x)"
  by (induction xs) auto

lemma no_sigint_or_split:
  "Sigint \<notin> set es \<or> (\<exists>pre post. es = pre @ Sigint # post \<and> Sigint \<notin> set pre)"
  by (metis split_list_first)

text \<open>Without a signal the wait ends with the settlement and only updates the spinner.\<close>

lemma await_post_quiet:
  "Sigint \<notin> set es \<Longrightarrow>
     snd (await_post ls st es) = None \<and> list_all is_spinner (fst (await_post ls st es))"
proof (induction es arbitrary: st)
  case Nil
  then show ?case by simp
next
  case (Cons e es)
  then obtain ev now where e: "e = Progress ev now" by (cases e) auto
  obtain st' shown where s: "onUploadProgress st ev now = (st', shown)"
    by (cases "onUploadProgress st ev now")
  from Cons have "snd (await_post ls st' es) = None
                  \<and> list_all is_spinner (fst (await_post ls st' es))" by simp
  with e s show ?case
    by (cases "await_post ls st' es") (auto split: option.splits)
qed

text \<open>The first signal ends the wait; what follows it is never looked at.\<close>

lemma await_post_interrupted:
  "Sigint \<notin> set pre \<Longrightarrow>
     await_post ls st (pre @ Sigint # post) =
       (fst (await_post ls st pre) @ fst (raise_sigint ls), Some (snd (raise_sigint ls)))"
proof (induction pre arbitrary: st)
  case Nil
  then show ?case by (simp add: case_prod_beta)
next
  case (Cons e pre)
  then obtain ev now where e: "e = Progress ev now" by (cases e) auto
  obtain st' shown where s: "onUploadProgress st ev now = (st', shown)"
    by (cases "onUploadProgress st ev now")
  from Cons have "await_post ls st' (pre @ Sigint # post) =
       (fst (await_post ls st' pre) @ fst (raise_sigint ls), Some (snd (raise_sigint ls)))"
    by simp
  with e s show ?case
    by (cases "await_post ls st' pre") (auto split: option.splits)
qed

section \<open>The ways an upload runs\<close>

lemma during_fields [simp]:
  "history_file (during w) = history_file w"
  "config_file (during w) = config_file w"
  "sigint_listeners (during w) = HandleCancel # sigint_listeners w"
  by (simp_all add: during_def)

lemma js_prop_ok: "body \<noteq> JNull \<Longrightarrow> js_prop (Some body) k = Inr (js_get body k)"
  by (cases body) (simp_all add: js_prop_def)

lemma template_string: "template (Some (JStr s)) = Inr s"
  by (simp add: template_def)

lemma bearer_cases:
  "bearer token = Inr None \<longleftrightarrow> \<not> truthy_val token"
  "bearer token = Inr (Some t) \<longleftrightarrow> truthy_val token \<and> template token = Inr t"
  "bearer token = Inl e \<longleftrightarrow> truthy_val token \<and> template token = Inl e"
  by (auto simp: bearer_def split: sum.splits)


text \<open>A key without a text: the header cannot be built, and nothing is requested.\<close>

lemma uploadToPixeldrain_no_text:
  "template apiKey = Inl e \<Longrightarrow> uploadToPixeldrain env apiKey w = (Exited 1, [], w)"
  by (simp add: uploadToPixeldrain_def)

lemma uploadToPixeldrain_interrupted:
  assumes "file_exists env" and "template apiKey = Inr key"
      and "inflight_events env = pre @ Sigint # post" and "Sigint \<notin> set pre"
  shows "uploadToPixeldrain env apiKey w =
           (Exited 0,
            Request PIXELDRAIN_UPLOAD_URL (pixeldrain_headers (form_boundary env) key)
              # fst (await_post (sigint_listeners (during w)) (first_sample env) pre)
              @ [AbortRequest],
            during w)"
  using assms
  by (simp add: uploadToPixeldrain_def getHeaders_def pixeldrain_headers_def first_sample_def
        during_def await_post_interrupted raise_sigint_def)

lemma uploadToPixeldrain_settled:
  assumes "file_exists env" and "template apiKey = Inr key"
      and "Sigint \<notin> set (inflight_events env)"
  shows "uploadToPixeldrain env apiKey w =
     (let request = Request PIXELDRAIN_UPLOAD_URL (pixeldrain_headers (form_boundary env) key);
          tr = fst (await_post (sigint_listeners (during w)) (first_sample env)
                      (inflight_events env))
      in case post_result env of
           Resolved data \<Rightarrow>
             (case js_prop (Some data) ''id'' of
                Inl e \<Rightarrow> (Exited 1, request # tr, w)
              | Inr fileId \<Rightarrow>
                  (case template fileId of
                     Inl e \<Rightarrow> (Exited 1, request # tr, w)
                   | Inr idText \<Rightarrow>
                       (case saveHistory (pixeldrain_entry env fileId idText) (history_file w) of
                          Inl e \<Rightarrow> (Exited 1, request # tr, w)
                        | Inr h \<Rightarrow>
                            (Returned, request # tr @ [WriteHistory h], w\<lparr>history_file := h\<rparr>))))
         | HttpError status \<Rightarrow> (Exited 1, request # tr, during w)
         | NetworkError \<Rightarrow> (Exited 1, request # tr, during w)
         | OtherError \<Rightarrow> (Exited 1, request # tr, during w))"
proof -
  obtain tr where tr: "await_post (HandleCancel # sigint_listeners w)
      \<lparr>lastLoaded = 0, lastTime = start_time env\<rparr> (inflight_events env) = (tr, None)"
    using await_post_quiet[OF assms(3)] by (metis prod.collapse)
  show ?thesis
    using assms(1,2) tr
    by (simp add: uploadToPixeldrain_def getHeaders_def pixeldrain_headers_def
          pixeldrain_entry_def first_sample_def during_def Let_def
          split: axios_result.splits sum.splits)
qed

lemma uploadToGofile_not_found:
  "\<not> file_exists env \<Longrightarrow> uploadToGofile env token w = (Exited 1, [], w)"
  by (simp add: uploadToGofile_def)

text \<open>A truthy token without a text: the header cannot be built, and nothing is requested.\<close>

lemma uploadToGofile_no_text:
  "bearer token = Inl e \<Longrightarrow> uploadToGofile env token w = (Exited 1, [], w)"
  by (auto simp: uploadToGofile_def bearer_def split: if_splits sum.splits)

lemma uploadToGofile_interrupted:
  assumes "file_exists env" and "bearer token = Inr auth"
      and "inflight_events env = pre @ Sigint # post" and "Sigint \<notin> set pre"
  shows "uploadToGofile env token w =
           (Exited 0,
            Request ''https://upload.gofile.io/uploadfile''
                (gofile_headers (form_boundary env) auth)
              # fst (await_post (sigint_listeners (during w)) (first_sample env) pre)
              @ [AbortRequest],
            during w)"
  using assms
  by (auto simp: uploadToGofile_def getHeaders_def gofile_headers_def first_sample_def
        during_def await_post_interrupted raise_sigint_def bearer_def
        split: if_splits sum.splits)

lemma uploadToGofile_settled:
  assumes "file_exists env" and "bearer token = Inr auth"
      and "Sigint \<notin> set (inflight_events env)"
  shows "uploadToGofile env token w =
     (let request = Request ''https://upload.gofile.io/uploadfile''
                      (gofile_headers (form_boundary env) auth);
          tr = fst (await_post (sigint_listeners (during w)) (first_sample env)
                      (inflight_events env))
      in case post_result env of
           Resolved data \<Rightarrow>
             (case js_prop (Some data) ''data'' of
                Inl e \<Rightarrow> (Exited 1, request # tr, w)
              | Inr inner \<Rightarrow>
                 (case js_prop inner ''fileId'' of
                    Inl e \<Rightarrow> (Exited 1, request # tr, w)
                  | Inr fileId \<Rightarrow>
                     (case js_prop inner ''downloadPage'' of
                        Inl e \<Rightarrow> (Exited 1, request # tr, w)
                      | Inr downloadLink \<Rightarrow>
                         (case saveHistory (gofile_entry env fileId downloadLink)
                                 (history_file w) of
                            Inl e \<Rightarrow> (Exited 1, request # tr, w)
                          | Inr h \<Rightarrow>
                              (case template downloadLink of
                                 Inl e \<Rightarrow> (Exited 1, request # tr @ [WriteHistory h],
                                           w\<lparr>history_file := h\<rparr>)
                               | Inr shown \<Rightarrow> (Returned, request # tr @ [WriteHistory h],
                                               w\<lparr>history_file := h\<rparr>))))))
         | HttpError status \<Rightarrow> (Exited 1, request # tr, during w)
         | NetworkError \<Rightarrow> (Exited 1, request # tr, during w)
         | OtherError \<Rightarrow> (Exited 1, request # tr, during w))"
proof -
  obtain tr where tr: "await_post (HandleCancel # sigint_listeners w)
      \<lparr>lastLoaded = 0, lastTime = start_time env\<rparr> (inflight_events env) = (tr, None)"
    using await_post_quiet[OF assms(3)] by (metis prod.collapse)
  have hs: "(if truthy_val token
             then (case template token of
                     Inl e \<Rightarrow> Inl e
                   | Inr t \<Rightarrow> Inr (AList.update ''Authorization'' (''Bearer '' @ t)
                                      (getHeaders (form_boundary env))))
             else Inr (getHeaders (form_boundary env)))
            = Inr (gofile_headers (form_boundary env) auth)"
    using assms(2)
    by (auto simp: bearer_def gofile_headers_def getHeaders_def split: if_splits sum.splits)
  show ?thesis
    using assms(1) tr
    by (simp add: uploadToGofile_def hs gofile_entry_def
          first_sample_def during_def Let_def split: axios_result.splits sum.splits)
qed

text \<open>An upload that gets as far as the request calls \<^verbatim>\<open>axios.post\<close> once, first of all.\<close>

lemma uploadToPixeldrain_trace:
  assumes "file_exists env" and "template apiKey = Inr key"
  shows "\<exists>rest. trace_of (uploadToPixeldrain env apiKey w) =
            Request PIXELDRAIN_UPLOAD_URL (pixeldrain_headers (form_boundary env) key) # rest
          \<and> \<not> list_ex is_request rest"
  using no_sigint_or_split[of "inflight_events env"]
proof
  assume "\<exists>pre post. inflight_events env = pre @ Sigint # post \<and> Sigint \<notin> set pre"
  then obtain pre post where ev: "inflight_events env = pre @ Sigint # post" "Sigint \<notin> set pre"
    by blast
  have "list_all is_spinner (fst (await_post (sigint_listeners (during w)) (first_sample env) pre))"
    using await_post_quiet[OF ev(2)] by simp
  then show ?thesis
    by (simp add: trace_of_def uploadToPixeldrain_interrupted[OF assms ev] list_ex_snoc
          spinners_no_request)
next
  assume quiet: "Sigint \<notin> set (inflight_events env)"
  have "list_all is_spinner
          (fst (await_post (sigint_listeners (during w)) (first_sample env) (inflight_events env)))"
    using await_post_quiet[OF quiet] by simp
  then show ?thesis
    by (simp add: trace_of_def uploadToPixeldrain_settled[OF assms quiet] Let_def list_ex_snoc
          spinners_no_request split: axios_result.splits sum.splits)
qed

lemma uploadToGofile_trace:
  assumes "file_exists env" and "bearer token = Inr auth"
  shows "\<exists>rest. trace_of (uploadToGofile env token w) =
            Request ''https://upload.gofile.io/uploadfile''
              (gofile_headers (form_boundary env) auth) # rest
          \<and> \<not> list_ex is_request rest"
  using no_sigint_or_split[of "inflight_events env"]
proof
  assume "\<exists>pre post. inflight_events env = pre @ Sigint # post \<and> Sigint \<notin> set pre"
  then obtain pre post where ev: "inflight_events env = pre @ Sigint # post" "Sigint \<notin> set pre"
    by blast
  have "list_all is_spinner (fst (await_post (sigint_listeners (during w)) (first_sample env) pre))"
    using await_post_quiet[OF ev(2)] by simp
  then show ?thesis
    by (simp add: trace_of_def uploadToGofile_interrupted[OF assms ev] list_ex_snoc
          spinners_no_request)
next
  assume quiet: "Sigint \<notin> set (inflight_events env)"
  have "list_all is_spinner
          (fst (await_post (sigint_listeners (during w)) (first_sample env) (inflight_events env)))"
    using await_post_quiet[OF quiet] by simp
  then show ?thesis
    by (simp add: trace_of_def uploadToGofile_settled[OF assms quiet] Let_def list_ex_snoc
          spinners_no_request split: axios_result.splits sum.splits)
qed

text \<open>
  A response with a body that is not null and an identifier that has a text, on a
  history that loads as an array: the entry, as it is written, becomes the first of the
  stored history.
\<close>

lemma uploadToPixeldrain_success:
  assumes "file_exists env" and "template apiKey = Inr key"
      and "Sigint \<notin> set (inflight_events env)"
      and "post_result env = Resolved body" and "body \<noteq> JNull"
      and "template (js_get body ''id'') = Inr idText"
      and "loadHistory (history_file w) = JArr h"
  shows "uploadToPixeldrain env apiKey w =
           (Returned,
            Request PIXELDRAIN_UPLOAD_URL (pixeldrain_headers (form_boundary env) key)
              # fst (await_post (sigint_listeners (during w)) (first_sample env)
                       (inflight_events env))
              @ [WriteHistory (Parsed (JArr (stringify (pixeldrain_entry env (js_get body ''id'') idText)
                                               # map stringify (take 49 h))))],
            w\<lparr>history_file := Parsed (JArr (stringify (pixeldrain_entry env (js_get body ''id'') idText)
                                              # map stringify (take 49 h)))\<rparr>)"
  using assms
  by (simp add: uploadToPixeldrain_settled js_prop_ok saveHistory_array Let_def)

text \<open>
  For Gofile the entry is written in the same way; the upload returns when the download
  page has a text, and exits with status 1, after the write, when it has none.
\<close>

lemma uploadToGofile_success:
  assumes "file_exists env" and "bearer token = Inr auth"
      and "Sigint \<notin> set (inflight_events env)"
      and "post_result env = Resolved body" and "js_get body ''data'' = Some d" and "d \<noteq> JNull"
      and "loadHistory (history_file w) = JArr h"
  shows "uploadToGofile env token w =
           ((case template (js_get d ''downloadPage'') of Inl e \<Rightarrow> Exited 1 | Inr shown \<Rightarrow> Returned),
            Request ''https://upload.gofile.io/uploadfile''
                (gofile_headers (form_boundary env) auth)
              # fst (await_post (sigint_listeners (during w)) (first_sample env)
                       (inflight_events env))
              @ [WriteHistory (Parsed (JArr (stringify (gofile_entry env (js_get d ''fileId'')
                                               (js_get d ''downloadPage'')) # map stringify (take 49 h))))],
            w\<lparr>history_file := Parsed (JArr (stringify (gofile_entry env (js_get d ''fileId'')
                                              (js_get d ''downloadPage'')) # map stringify (take 49 h)))\<rparr>)"
proof -
  from assms(5) have "body \<noteq> JNull" by (cases body) auto
  with assms show ?thesis
    by (simp add: uploadToGofile_settled js_prop_ok saveHistory_array Let_def split: sum.splits)
qed

lemma js_get_pixeldrain_entry:
  "js_get (pixeldrain_entry env fileId idText) ''fileId'' = fileId"
  "js_get (pixeldrain_entry env fileId idText) ''downloadLink''
     = Some (JStr (''https://pixeldrain.com/u/'' @ idText))"
  by (cases fileId; simp add: pixeldrain_entry_def object_def members_def List.map_filter_def)+

lemma js_get_gofile_entry:
  "js_get (gofile_entry env fileId downloadLink) ''fileId'' = fileId"
  "js_get (gofile_entry env fileId downloadLink) ''downloadLink'' = downloadLink"
  by (cases fileId; cases downloadLink;
      simp add: gofile_entry_def object_def members_def List.map_filter_def)+

lemma sample_env_facts:
  "file_exists sample_env"
  "Sigint \<notin> set (inflight_events sample_env)"
  "post_result sample_env = Resolved (JObj [(''id'', JStr ''abc123'')])"
  "form_boundary sample_env = ''b0''"
  "loadHistory (history_file sample_world) = JArr []"
  "sigint_listeners sample_world = []"
  "config_file sample_world = sample_config"
  by (simp_all add: sample_env_def sample_world_def loadHistory_def)

section \<open>Response normalisation\<close>

text \<open>
  C3, as stated, fails on four kinds of response. (1) A Pixeldrain body whose \<^verbatim>\<open>id\<close> is an
  object with a member named \<^verbatim>\<open>toString\<close>, such as \<^verbatim>\<open>{"id": {"toString": 1}}\<close>: building
  the download link raises a TypeError, the process exits with status 1 and nothing is
  recorded. (2) Any response when the stored history is not an array, such as \<^verbatim>\<open>{}\<close>:
  \<^verbatim>\<open>history.unshift\<close> raises a TypeError and nothing is recorded. (3) A body that is
  \<^verbatim>\<open>null\<close>, or a Gofile body without \<^verbatim>\<open>data\<close>: reading the field raises a TypeError.
  (4) A Pixeldrain body whose \<^verbatim>\<open>id\<close> is written \<^verbatim>\<open>1e400\<close>: the \<^verbatim>\<open>fileId\<close> in memory is
  \<^verbatim>\<open>Infinity\<close>, and what is recorded is \<^verbatim>\<open>null\<close>.
\<close>

theorem response_not_recorded:
  "outcome_of (uploadToPixeldrain
      (sample_env\<lparr>post_result := Resolved (JObj [(''id'', JObj [(''toString'', JNum ''1'')])])\<rparr>)
      (Some (JStr ''key'')) sample_world) = Exited 1
   \<and> history_file (world_of (uploadToPixeldrain
        (sample_env\<lparr>post_result := Resolved (JObj [(''id'', JObj [(''toString'', JNum ''1'')])])\<rparr>)
        (Some (JStr ''key'')) sample_world)) = history_file sample_world
   \<and> outcome_of (uploadToPixeldrain sample_env (Some (JStr ''key''))
        (sample_world\<lparr>history_file := Parsed (JObj [])\<rparr>)) = Exited 1
   \<and> history_file (world_of (uploadToPixeldrain sample_env (Some (JStr ''key''))
        (sample_world\<lparr>history_file := Parsed (JObj [])\<rparr>))) = Parsed (JObj [])
   \<and> outcome_of (uploadToPixeldrain (sample_env\<lparr>post_result := Resolved JNull\<rparr>)
        (Some (JStr ''key'')) sample_world) = Exited 1
   \<and> history_file (world_of (uploadToPixeldrain (sample_env\<lparr>post_result := Resolved JNull\<rparr>)
        (Some (JStr ''key'')) sample_world)) = history_file sample_world
   \<and> outcome_of (uploadToGofile (sample_env\<lparr>post_result := Resolved (JObj [])\<rparr>)
        None sample_world) = Exited 1
   \<and> history_file (world_of (uploadToGofile (sample_env\<lparr>post_result := Resolved (JObj [])\<rparr>)
        None sample_world)) = history_file sample_world
   \<and> history_file (world_of (uploadToPixeldrain
        (sample_env\<lparr>post_result := Resolved (JObj [(''id'', JNum ''Infinity'')])\<rparr>)
        (Some (JStr ''key'')) sample_world))
       = Parsed (JArr [JObj [(''service'', JStr ''pixeldrain''),
                             (''timestamp'', JStr ''2024-01-01T00:00:00.000Z''),
                             (''filename'', JStr ''a.bin''),
                             (''fileSize'', JStr ''976.56 KB''),
                             (''fileId'', JNull),
                             (''downloadLink'', JStr ''https://pixeldrain.com/u/Infinity'')]])"
proof -
  let ?k = "Some (JStr ''key'')"
  have key: "template ?k = Inr ''key''" by (rule template_string)
  have none: "bearer None = Inr None" by (simp add: bearer_def truthy_val_def)
  have e: "\<And>r. file_exists (sample_env\<lparr>post_result := r\<rparr>)"
          "\<And>r. Sigint \<notin> set (inflight_events (sample_env\<lparr>post_result := r\<rparr>))"
          "\<And>r. post_result (sample_env\<lparr>post_result := r\<rparr>) = r"
          "\<And>r. entry_time (sample_env\<lparr>post_result := r\<rparr>) = ''2024-01-01T00:00:00.000Z''"
          "\<And>r. file_name (sample_env\<lparr>post_result := r\<rparr>) = ''a.bin''"
          "\<And>r. size_text (sample_env\<lparr>post_result := r\<rparr>) = ''976.56 KB''"
    by (simp_all add: sample_env_def)
  have h: "history_file sample_world = Parsed (JArr [])"
    by (simp add: sample_world_def)
  have a: "outcome_of (uploadToPixeldrain
      (sample_env\<lparr>post_result := Resolved (JObj [(''id'', JObj [(''toString'', JNum ''1'')])])\<rparr>)
      ?k sample_world) = Exited 1
   \<and> history_file (world_of (uploadToPixeldrain
        (sample_env\<lparr>post_result := Resolved (JObj [(''id'', JObj [(''toString'', JNum ''1'')])])\<rparr>)
        ?k sample_world)) = history_file sample_world"
    by (simp add: uploadToPixeldrain_settled[OF e(1) key e(2)] e(3) Let_def js_prop_def
          template_def outcome_of_def world_of_def)
  have b: "outcome_of (uploadToPixeldrain sample_env ?k
        (sample_world\<lparr>history_file := Parsed (JObj [])\<rparr>)) = Exited 1
   \<and> history_file (world_of (uploadToPixeldrain sample_env ?k
        (sample_world\<lparr>history_file := Parsed (JObj [])\<rparr>))) = Parsed (JObj [])"
    by (simp add: uploadToPixeldrain_settled[OF sample_env_facts(1) key sample_env_facts(2)]
          sample_env_facts(3) Let_def js_prop_def template_def saveHistory_def loadHistory_def
          outcome_of_def world_of_def)
  have c: "outcome_of (uploadToPixeldrain (sample_env\<lparr>post_result := Resolved JNull\<rparr>)
        ?k sample_world) = Exited 1
   \<and> history_file (world_of (uploadToPixeldrain (sample_env\<lparr>post_result := Resolved JNull\<rparr>)
        ?k sample_world)) = history_file sample_world"
    by (simp add: uploadToPixeldrain_settled[OF e(1) key e(2)] e(3) Let_def js_prop_def
          outcome_of_def world_of_def)
  have d: "outcome_of (uploadToGofile (sample_env\<lparr>post_result := Resolved (JObj [])\<rparr>)
        None sample_world) = Exited 1
   \<and> history_file (world_of (uploadToGofile (sample_env\<lparr>post_result := Resolved (JObj [])\<rparr>)
        None sample_world)) = history_file sample_world"
    by (simp add: uploadToGofile_settled[OF e(1) none e(2)] e(3) Let_def js_prop_def
          outcome_of_def world_of_def)
  have f: "history_file (world_of (uploadToPixeldrain
        (sample_env\<lparr>post_result := Resolved (JObj [(''id'', JNum ''Infinity'')])\<rparr>)
        ?k sample_world))
       = Parsed (JArr [JObj [(''service'', JStr ''pixeldrain''),
                             (''timestamp'', JStr ''2024-01-01T00:00:00.000Z''),
                             (''filename'', JStr ''a.bin''),
                             (''fileSize'', JStr ''976.56 KB''),
                             (''fileId'', JNull),
                             (''downloadLink'', JStr ''https://pixeldrain.com/u/Infinity'')]])"
    by (simp add: uploadToPixeldrain_settled[OF e(1) key e(2)] e(3) e(4) e(5) e(6) h Let_def
          js_prop_def template_def saveHistory_def loadHistory_def splice50_def
          pixeldrain_entry_def object_def members_def List.map_filter_def world_of_def)
  from a b c d f show ?thesis by (intro conjI) (erule conjunct1 conjunct2 | assumption)+
qed

text \<open>
  C3, amended. Each adapter maps its response shape to the pair
  \<^verbatim>\<open>{fileId, downloadLink}\<close> and, when the stored history is an array (or the file is
  absent or unreadable), records it in the entry placed first in the stored history, as
  \<^verbatim>\<open>JSON.stringify\<close> writes it. For a Pixeldrain response whose body is not null and
  whose \<^verbatim>\<open>id\<close> has a text, \<^verbatim>\<open>fileId\<close> is the body's \<^verbatim>\<open>id\<close> and \<^verbatim>\<open>downloadLink\<close> is
  \<^verbatim>\<open>https://pixeldrain.com/u/\<close> followed by the text of that id (the id itself when it
  is a string), and the upload returns. For a Gofile response with \<^verbatim>\<open>data\<close> not null
  \<^verbatim>\<open>fileId\<close> is \<^verbatim>\<open>data.fileId\<close> and \<^verbatim>\<open>downloadLink\<close> is \<^verbatim>\<open>data.downloadPage\<close>; the
  upload returns when the download page has a text (it is printed after the history is
  saved). A response presupposes a request, so the key or token is one for which the
  header could be built. A value that holds no number that is not finite is recorded
  as it is.
\<close>

theorem response_normalisation:
  assumes "file_exists env" and "Sigint \<notin> set (inflight_events env)"
      and "post_result env = Resolved body" and "loadHistory (history_file w) = JArr h"
  shows "(\<forall>key idText.
            body \<noteq> JNull \<longrightarrow> template apiKey = Inr key \<longrightarrow>
            template (js_get body ''id'') = Inr idText \<longrightarrow>
            (\<exists>entry.
                outcome_of (uploadToPixeldrain env apiKey w) = Returned
              \<and> history_file (world_of (uploadToPixeldrain env apiKey w))
                  = Parsed (JArr (entry # map stringify (take 49 h)))
              \<and> js_get entry ''fileId'' = map_option stringify (js_get body ''id'')
              \<and> js_get entry ''downloadLink''
                  = Some (JStr (''https://pixeldrain.com/u/'' @ idText))))
       \<and> (\<forall>s. js_get body ''id'' = Some (JStr s) \<longrightarrow>
              template (js_get body ''id'') = Inr s
            \<and> map_option stringify (js_get body ''id'') = Some (JStr s))
       \<and> (\<forall>d auth.
            js_get body ''data'' = Some d \<longrightarrow> d \<noteq> JNull \<longrightarrow> bearer token = Inr auth \<longrightarrow>
            (\<exists>entry.
                history_file (world_of (uploadToGofile env token w))
                  = Parsed (JArr (entry # map stringify (take 49 h)))
              \<and> js_get entry ''fileId'' = map_option stringify (js_get d ''fileId'')
              \<and> js_get entry ''downloadLink'' = map_option stringify (js_get d ''downloadPage'')
              \<and> (outcome_of (uploadToGofile env token w) = Returned
                   \<longleftrightarrow> (\<exists>shown. template (js_get d ''downloadPage'') = Inr shown))))
       \<and> (\<forall>j. finite_numbers j \<longrightarrow> stringify j = j)"
proof (intro conjI allI impI)
  fix key idText
  assume body: "body \<noteq> JNull" and key: "template apiKey = Inr key"
     and idText: "template (js_get body ''id'') = Inr idText"
  let ?entry = "stringify (pixeldrain_entry env (js_get body ''id'') idText)"
  note run = uploadToPixeldrain_success[OF assms(1) key assms(2) assms(3) body idText assms(4)]
  have "outcome_of (uploadToPixeldrain env apiKey w) = Returned"
    by (simp add: run outcome_of_def)
  moreover have "history_file (world_of (uploadToPixeldrain env apiKey w))
                  = Parsed (JArr (?entry # map stringify (take 49 h)))"
    by (simp add: run world_of_def)
  moreover have "js_get ?entry ''fileId'' = map_option stringify (js_get body ''id'')"
    by (simp only: js_get_stringify js_get_pixeldrain_entry)
  moreover have "js_get ?entry ''downloadLink'' = Some (JStr (''https://pixeldrain.com/u/'' @ idText))"
    by (simp add: js_get_stringify js_get_pixeldrain_entry)
  ultimately show "\<exists>entry.
                outcome_of (uploadToPixeldrain env apiKey w) = Returned
              \<and> history_file (world_of (uploadToPixeldrain env apiKey w))
                  = Parsed (JArr (entry # map stringify (take 49 h)))
              \<and> js_get entry ''fileId'' = map_option stringify (js_get body ''id'')
              \<and> js_get entry ''downloadLink''
                  = Some (JStr (''https://pixeldrain.com/u/'' @ idText))"
    by blast
next
  fix s
  assume "js_get body ''id'' = Some (JStr s)"
  then show "template (js_get body ''id'') = Inr s"
    and "map_option stringify (js_get body ''id'') = Some (JStr s)"
    by (simp_all add: template_def)
next
  fix d auth
  assume d: "js_get body ''data'' = Some d" and nn: "d \<noteq> JNull"
     and auth: "bearer token = Inr auth"
  let ?entry = "stringify (gofile_entry env (js_get d ''fileId'') (js_get d ''downloadPage''))"
  note run = uploadToGofile_success[OF assms(1) auth assms(2) assms(3) d nn assms(4)]
  have "history_file (world_of (uploadToGofile env token w))
                  = Parsed (JArr (?entry # map stringify (take 49 h)))"
    by (simp add: run world_of_def)
  moreover have "js_get ?entry ''fileId'' = map_option stringify (js_get d ''fileId'')"
    by (simp only: js_get_stringify js_get_gofile_entry)
  moreover have "js_get ?entry ''downloadLink'' = map_option stringify (js_get d ''downloadPage'')"
    by (simp only: js_get_stringify js_get_gofile_entry)
  moreover have "outcome_of (uploadToGofile env token w) = Returned
                   \<longleftrightarrow> (\<exists>shown. template (js_get d ''downloadPage'') = Inr shown)"
    by (cases "template (js_get d ''downloadPage'')") (simp_all add: run outcome_of_def)
  ultimately show "\<exists>entry.
                history_file (world_of (uploadToGofile env token w))
                  = Parsed (JArr (entry # map stringify (take 49 h)))
              \<and> js_get entry ''fileId'' = map_option stringify (js_get d ''fileId'')
              \<and> js_get entry ''downloadLink'' = map_option stringify (js_get d ''downloadPage'')
              \<and> (outcome_of (uploadToGofile env token w) = Returned
                   \<longleftrightarrow> (\<exists>shown. template (js_get d ''downloadPage'') = Inr shown))"
    by blast
next
  fix j
  assume "finite_numbers j"
  then show "stringify j = j" by (rule stringify_unchanged)
qed

theorem response_normalisation_witness:
  "\<exists>entry1 entry2.
     outcome_of (uploadToPixeldrain sample_env (Some (JStr ''key'')) sample_world) = Returned
   \<and> history_file (world_of (uploadToPixeldrain sample_env (Some (JStr ''key'')) sample_world))
       = Parsed (JArr [entry1])
   \<and> js_get entry1 ''fileId'' = Some (JStr ''abc123'')
   \<and> js_get entry1 ''downloadLink'' = Some (JStr ''https://pixeldrain.com/u/abc123'')
   \<and> outcome_of (uploadToGofile (sample_env\<lparr>post_result := Resolved gofile_body\<rparr>) None
                   sample_world) = Returned
   \<and> history_file (world_of (uploadToGofile (sample_env\<lparr>post_result := Resolved gofile_body\<rparr>)
                                None sample_world))
       = Parsed (JArr [entry2])
   \<and> js_get entry2 ''fileId'' = Some (JStr ''f1'')
   \<and> js_get entry2 ''downloadLink'' = Some (JStr ''https://gofile.io/d/x'')"
proof -
  have g: "file_exists (sample_env\<lparr>post_result := Resolved gofile_body\<rparr>)"
          "Sigint \<notin> set (inflight_events (sample_env\<lparr>post_result := Resolved gofile_body\<rparr>))"
          "post_result (sample_env\<lparr>post_result := Resolved gofile_body\<rparr>) = Resolved gofile_body"
    by (simp_all add: sample_env_def)
  have d: "js_get gofile_body ''data''
             = Some (JObj [(''fileId'', JStr ''f1''), (''downloadPage'', JStr ''https://gofile.io/d/x'')])"
    by (simp add: gofile_body_def)
  have key: "template (Some (JStr ''key'')) = Inr ''key''" by (rule template_string)
  have none: "bearer None = Inr None" by (simp add: bearer_def truthy_val_def)
  have id: "template (js_get (JObj [(''id'', JStr ''abc123'')]) ''id'') = Inr ''abc123''"
    by (simp add: template_def)
  have nn: "JObj [(''id'', JStr ''abc123'')] \<noteq> JNull"
          "JObj [(''fileId'', JStr ''f1''), (''downloadPage'', JStr ''https://gofile.io/d/x'')] \<noteq> JNull"
    by simp_all
  note first = response_normalisation [OF sample_env_facts(1) sample_env_facts(2)
         sample_env_facts(3) sample_env_facts(5), of "Some (JStr ''key'')" None,
         THEN conjunct1, rule_format, OF nn(1) key id]
  then obtain entry1 where p:
    "outcome_of (uploadToPixeldrain sample_env (Some (JStr ''key'')) sample_world) = Returned"
    "history_file (world_of (uploadToPixeldrain sample_env (Some (JStr ''key'')) sample_world))
       = Parsed (JArr (entry1 # map stringify (take 49 [])))"
    "js_get entry1 ''fileId'' = map_option stringify (js_get (JObj [(''id'', JStr ''abc123'')]) ''id'')"
    "js_get entry1 ''downloadLink'' = Some (JStr (''https://pixeldrain.com/u/'' @ ''abc123''))"
    by blast
  note second = response_normalisation [OF g(1) g(2) g(3) sample_env_facts(5),
         of "Some (JStr ''key'')" None, THEN conjunct2, THEN conjunct2, THEN conjunct1,
         rule_format, OF d nn(2) none]
  then obtain entry2 where q:
    "history_file (world_of (uploadToGofile (sample_env\<lparr>post_result := Resolved gofile_body\<rparr>)
                                None sample_world))
       = Parsed (JArr (entry2 # map stringify (take 49 [])))"
    "js_get entry2 ''fileId'' = map_option stringify
        (js_get (JObj [(''fileId'', JStr ''f1''), (''downloadPage'', JStr ''https://gofile.io/d/x'')]) ''fileId'')"
    "js_get entry2 ''downloadLink'' = map_option stringify
        (js_get (JObj [(''fileId'', JStr ''f1''), (''downloadPage'', JStr ''https://gofile.io/d/x'')]) ''downloadPage'')"
    "outcome_of (uploadToGofile (sample_env\<lparr>post_result := Resolved gofile_body\<rparr>) None sample_world) = Returned
       \<longleftrightarrow> (\<exists>shown. template (js_get (JObj [(''fileId'', JStr ''f1''), (''downloadPage'', JStr ''https://gofile.io/d/x'')]) ''downloadPage'') = Inr shown)"
    by blast
  from q(4) have r: "outcome_of (uploadToGofile (sample_env\<lparr>post_result := Resolved gofile_body\<rparr>) None sample_world) = Returned"
    by (simp add: template_def)
  from p q(1,2,3) r show ?thesis
    by (intro exI[of _ entry1] exI[of _ entry2]) simp
qed

section \<open>The Pixeldrain authorisation header\<close>

text \<open>The encoder on the test vectors of RFC 4648, section 10.\<close>

lemma base64_rfc4648_vectors:
  "base64 '''' = ''''"
  "base64 ''f'' = ''Zg==''"
  "base64 ''fo'' = ''Zm8=''"
  "base64 ''foo'' = ''Zm9v''"
  "base64 ''foob'' = ''Zm9vYg==''"
  "base64 ''fooba'' = ''Zm9vYmE=''"
  "base64 ''foobar'' = ''Zm9vYmFy''"
  by code_simp+

text \<open>Decoding undoes the encoding, so the header names an empty user and the key.\<close>

lemma index_of_nth: "distinct xs \<Longrightarrow> i < length xs \<Longrightarrow> index_of xs (xs ! i) = Some i"
proof (induction xs arbitrary: i)
  case Nil
  then show ?case by simp
next
  case (Cons y ys)
  then show ?case by (cases i) (auto simp: nth_Cons')
qed

lemma b64chars_props: "distinct b64chars" "length b64chars = 64" "CHR ''='' \<notin> set b64chars"
  by (simp_all add: b64chars_def)

lemma sextet_b64: "sextet (b64 n) = Some (n mod 64)"
  unfolding sextet_def b64_def
  by (rule index_of_nth) (simp_all add: b64chars_props)

lemma b64_not_pad: "b64 n \<noteq> CHR ''=''"
proof -
  have "b64chars ! (n mod 64) \<in> set b64chars"
    by (rule nth_mem) (simp add: b64chars_props)
  with b64chars_props(3) show ?thesis by (auto simp: b64_def)
qed

lemma of_char_bound: "(of_char (c::char) :: nat) < 256"
proof -
  have "(of_char c :: nat) mod 256 < 256" by simp
  then show ?thesis by (simp only: of_char_mod_256)
qed

lemma hi_of_low: "b < k \<Longrightarrow> (a * k + b) div k = (a::nat)"
  by simp

lemma low_of_low: "b < k \<Longrightarrow> (a * k + b) mod k = (b::nat)"
  by simp

lemma group3_bytes:
  assumes "x < 256" and "y < 256" and "z < 256"
  shows "group3 (x div 4) ((x mod 4) * 16 + y div 16) ((y mod 16) * 4 + z div 64) (z mod 64)
           = [char_of x, char_of y, char_of z]"
proof -
  from assms have y: "y div 16 < 16" and z: "z div 64 < 4" by simp_all
  have a: "x div 4 * 4 + (x mod 4 * 16 + y div 16) div 16 = x"
    using y by simp
  have b: "(x mod 4 * 16 + y div 16) mod 16 * 16 + (y mod 16 * 4 + z div 64) div 4 = y"
    using y by (simp add: hi_of_low[OF z])
  have c: "(y mod 16 * 4 + z div 64) mod 4 * 64 + z mod 64 = z"
    using z by simp
  show ?thesis by (simp only: group3_def a b c)
qed

lemma group3_one: "take 1 (group3 (x div 4) ((x mod 4) * 16) 0 0) = [char_of x]"
proof -
  have a: "x div 4 * 4 + x mod 4 * 16 div 16 = x" by simp
  have "take 1 (group3 (x div 4) ((x mod 4) * 16) 0 0)
          = [char_of (x div 4 * 4 + x mod 4 * 16 div 16)]"
    by (simp add: group3_def)
  then show ?thesis by (simp only: a)
qed

lemma group3_two:
  assumes "y < 256"
  shows "take 2 (group3 (x div 4) ((x mod 4) * 16 + y div 16) ((y mod 16) * 4) 0)
           = [char_of x, char_of y]"
proof -
  from assms have y: "y div 16 < 16" by simp
  have a: "x div 4 * 4 + (x mod 4 * 16 + y div 16) div 16 = x"
    using y by simp
  have b: "(x mod 4 * 16 + y div 16) mod 16 * 16 + y mod 16 * 4 div 4 = y"
    using y by simp
  have "take 2 (group3 (x div 4) ((x mod 4) * 16 + y div 16) ((y mod 16) * 4) 0)
          = [char_of (x div 4 * 4 + (x mod 4 * 16 + y div 16) div 16),
             char_of ((x mod 4 * 16 + y div 16) mod 16 * 16 + y mod 16 * 4 div 4)]"
    by (simp add: group3_def del: div_mult_self1 div_mult_self2 div_mult_self3 div_mult_self4 mod_mult_self1 mod_mult_self2 mod_mult_self3 mod_mult_self4 nonzero_mult_div_cancel_right nonzero_mult_div_cancel_left)
  then show ?thesis by (simp only: a b)
qed

lemma sextet_small: "n < 64 \<Longrightarrow> sextet (b64 n) = Some n"
  by (simp add: sextet_b64)

lemma base64_empty: "base64 bs = [] \<longleftrightarrow> bs = []"
  by (induction bs rule: base64.induct) (simp_all add: Let_def)

lemma sextet_bounds_nat:
  assumes "x < 256" and "y < 256" and "z < 256"
  shows "x div 4 < (64::nat)"
    and "x mod 4 * 16 < (64::nat)"
    and "x mod 4 * 16 + y div 16 < (64::nat)"
    and "y mod 16 * 4 < (64::nat)"
    and "y mod 16 * 4 + z div 64 < (64::nat)"
proof -
  have m: "x mod 4 < 4" "y mod 16 < 16" by simp_all
  from assms have d: "x div 4 < 64" "y div 16 < 16" "z div 64 < 4" by simp_all
  from d show "x div 4 < 64" by simp
  from m show "x mod 4 * 16 < 64" by linarith
  from m d show "x mod 4 * 16 + y div 16 < 64" by linarith
  from m show "y mod 16 * 4 < 64" by linarith
  from m d show "y mod 16 * 4 + z div 64 < 64" by linarith
qed

lemmas sextet_bounds =
  sextet_bounds_nat [OF of_char_bound of_char_bound of_char_bound]

lemma base64_decode_base64: "base64_decode (base64 bs) = Some bs"
proof (induction bs rule: base64.induct)
  case 1
  show ?case by simp
next
  case (2 a)
  show ?case
    using group3_one[of "of_char a"]
    by (simp add: Let_def sextet_small sextet_bounds)
next
  case (3 a b)
  show ?case
    using group3_two[where x = "of_char a" and y = "of_char b", OF of_char_bound]
    by (simp add: Let_def sextet_small sextet_bounds b64_not_pad)
next
  case (4 a b c rest)
  note g = group3_bytes[where x = "of_char a" and y = "of_char b" and z = "of_char c",
      OF of_char_bound of_char_bound of_char_bound]
  have s4: "(of_char c :: nat) mod 64 < 64" by simp
  show ?case
  proof (cases "base64 rest")
    case Nil
    then have "rest = []" by (simp add: base64_empty)
    with Nil show ?thesis
      using g by (simp add: Let_def sextet_small sextet_bounds s4 b64_not_pad)
  next
    case (Cons e es)
    with 4 have "base64_decode (e # es) = Some rest" by simp
    with Cons show ?thesis
      using g by (simp add: Let_def sextet_small sextet_bounds s4)
  qed
qed

lemma basic_credentials_of_key:
  "basic_credentials (''Basic '' @ base64 ('':'' @ k)) = Some ([], k)"
  by (simp add: basic_credentials_def base64_decode_base64)

text \<open>
  C4. For every API key string \<open>k\<close>, the one request of a Pixeldrain upload carries the
  header \<^verbatim>\<open>Authorization\<close> with the value \<^verbatim>\<open>Basic\<close>, a space, and the Base64 encoding of
  \<open>k\<close> preceded by a colon: Basic authentication with an empty user name and the key as
  password.
\<close>

theorem pixeldrain_basic_auth:
  assumes "file_exists env"
  shows "\<exists>rest. trace_of (uploadToPixeldrain env (Some (JStr k)) w) =
            Request PIXELDRAIN_UPLOAD_URL
              [(''content-type'', ''multipart/form-data; boundary='' @ form_boundary env),
               (''Authorization'', ''Basic '' @ base64 ('':'' @ k))] # rest
          \<and> \<not> list_ex is_request rest"
  using uploadToPixeldrain_trace[OF assms template_string, of k w]
  by (simp add: pixeldrain_headers_def)

theorem pixeldrain_basic_auth_witness:
  "\<exists>rest. trace_of (uploadToPixeldrain sample_env (Some (JStr ''secret-key'')) sample_world) =
      Request ''https://pixeldrain.com/api/file''
        [(''content-type'', ''multipart/form-data; boundary=b0''),
         (''Authorization'', ''Basic OnNlY3JldC1rZXk='')] # rest
    \<and> \<not> list_ex is_request rest"
proof -
  have enc: "base64 '':secret-key'' = ''OnNlY3JldC1rZXk=''"
    by code_simp
  from pixeldrain_basic_auth [OF sample_env_facts(1), of "''secret-key''" sample_world] enc
  show ?thesis
    by (simp add: sample_env_facts(4) PIXELDRAIN_UPLOAD_URL_def)
qed

section \<open>History is written on success only\<close>




section \<open>Cancellation\<close>

text \<open>
  C6. If the interrupt signal arrives while the request is in flight, the handler
  aborts the request and then the process exits with status 0: the effects are the
  request, the spinner updates of the progress events before the signal, and the abort
  as the last one; nothing is written, the stores are as before, and neither the events
  after the signal nor the settlement of the request are looked at. After an upload
  that returns, the listeners are those from before the upload, so with none before it
  a later signal terminates the process by default and does not run the handler. A
  request is in flight only when its header could be built, that is for a key that has
  a text, as every string has; for any other key the upload exits with status 1 before
  the listener is registered and before any request.
\<close>

theorem sigint_cancels_upload:
  assumes "file_exists env"
  shows "(\<forall>key pre post.
            template apiKey = Inr key \<longrightarrow>
            inflight_events env = pre @ Sigint # post \<longrightarrow> Sigint \<notin> set pre \<longrightarrow>
            (\<exists>spins. uploadToPixeldrain env apiKey w =
                        (Exited 0,
                         Request PIXELDRAIN_UPLOAD_URL
                             (pixeldrain_headers (form_boundary env) key)
                           # spins @ [AbortRequest],
                         during w)
                    \<and> list_all is_spinner spins)
            \<and> history_file (during w) = history_file w
            \<and> config_file (during w) = config_file w)
       \<and> (\<forall>e. template apiKey = Inl e \<longrightarrow> uploadToPixeldrain env apiKey w = (Exited 1, [], w))
       \<and> (outcome_of (uploadToPixeldrain env apiKey w) = Returned \<longrightarrow>
            sigint_listeners (world_of (uploadToPixeldrain env apiKey w)) = sigint_listeners w
            \<and> (sigint_listeners w = [] \<longrightarrow>
                 raise_sigint (sigint_listeners (world_of (uploadToPixeldrain env apiKey w)))
                   = ([], Killed)))
       \<and> (\<forall>k. template (Some (JStr k)) = Inr k)"
proof (intro conjI allI impI)
  fix k
  show "template (Some (JStr k)) = Inr k" by (rule template_string)
next
  fix key pre post
  assume key: "template apiKey = Inr key"
     and ev: "inflight_events env = pre @ Sigint # post" "Sigint \<notin> set pre"
  have "list_all is_spinner (fst (await_post (sigint_listeners (during w)) (first_sample env) pre))"
    using await_post_quiet[OF ev(2)] by simp
  with uploadToPixeldrain_interrupted[OF assms key ev, of w]
  show "\<exists>spins. uploadToPixeldrain env apiKey w =
                   (Exited 0,
                    Request PIXELDRAIN_UPLOAD_URL (pixeldrain_headers (form_boundary env) key)
                      # spins @ [AbortRequest],
                    during w)
               \<and> list_all is_spinner spins"
    by blast
next
  show "history_file (during w) = history_file w" by simp
  show "config_file (during w) = config_file w" by simp
next
  fix e
  assume "template apiKey = Inl e"
  then show "uploadToPixeldrain env apiKey w = (Exited 1, [], w)"
    by (rule uploadToPixeldrain_no_text)
next
  assume ret: "outcome_of (uploadToPixeldrain env apiKey w) = Returned"
  obtain key where key: "template apiKey = Inr key"
  proof (cases "template apiKey")
    case (Inl e)
    from uploadToPixeldrain_no_text[OF Inl, of env w] ret show ?thesis
      by (simp add: outcome_of_def)
  qed
  have quiet: "Sigint \<notin> set (inflight_events env)"
  proof
    assume "Sigint \<in> set (inflight_events env)"
    then obtain pre post where "inflight_events env = pre @ Sigint # post" "Sigint \<notin> set pre"
      by (metis split_list_first)
    from uploadToPixeldrain_interrupted[OF assms key this, of w] ret show False
      by (simp add: outcome_of_def)
  qed
  from ret show same: "sigint_listeners (world_of (uploadToPixeldrain env apiKey w))
                         = sigint_listeners w"
    by (auto simp: uploadToPixeldrain_settled[OF assms key quiet] Let_def outcome_of_def
          world_of_def split: axios_result.splits sum.splits)
  assume "sigint_listeners w = []"
  with same show "raise_sigint (sigint_listeners (world_of (uploadToPixeldrain env apiKey w)))
                    = ([], Killed)"
    by (simp add: raise_sigint_def)
qed

theorem sigint_cancels_upload_witness:
  "outcome_of (uploadToPixeldrain
        (sample_env\<lparr>inflight_events :=
           [Progress \<lparr>loaded = 65536, total = Some 1000000\<rparr> 250, Sigint,
            Progress \<lparr>loaded = 131072, total = Some 1000000\<rparr> 750]\<rparr>)
        (Some (JStr ''key'')) sample_world) = Exited 0
   \<and> last (trace_of (uploadToPixeldrain
        (sample_env\<lparr>inflight_events :=
           [Progress \<lparr>loaded = 65536, total = Some 1000000\<rparr> 250, Sigint,
            Progress \<lparr>loaded = 131072, total = Some 1000000\<rparr> 750]\<rparr>)
        (Some (JStr ''key'')) sample_world)) = AbortRequest
   \<and> history_file (world_of (uploadToPixeldrain
        (sample_env\<lparr>inflight_events :=
           [Progress \<lparr>loaded = 65536, total = Some 1000000\<rparr> 250, Sigint,
            Progress \<lparr>loaded = 131072, total = Some 1000000\<rparr> 750]\<rparr>)
        (Some (JStr ''key'')) sample_world)) = history_file sample_world
   \<and> uploadToPixeldrain sample_env (Some (JObj [(''toString'', JNum ''1'')])) sample_world
       = (Exited 1, [], sample_world)
   \<and> sigint_listeners (world_of (uploadToPixeldrain sample_env (Some (JStr ''key'')) sample_world))
       = []
   \<and> raise_sigint (sigint_listeners
         (world_of (uploadToPixeldrain sample_env (Some (JStr ''key'')) sample_world)))
       = ([], Killed)"
proof -
  let ?env = "sample_env\<lparr>inflight_events :=
           [Progress \<lparr>loaded = 65536, total = Some 1000000\<rparr> 250, Sigint,
            Progress \<lparr>loaded = 131072, total = Some 1000000\<rparr> 750]\<rparr>"
  have ex: "file_exists ?env" by (simp add: sample_env_def)
  have ev: "inflight_events ?env =
              [Progress \<lparr>loaded = 65536, total = Some 1000000\<rparr> 250] @ Sigint
                # [Progress \<lparr>loaded = 131072, total = Some 1000000\<rparr> 750]"
           "Sigint \<notin> set [Progress \<lparr>loaded = 65536, total = Some 1000000\<rparr> 250]"
    by simp_all
  have key: "template (Some (JStr ''key'')) = Inr ''key''" by (rule template_string)
  have notext: "template (Some (JObj [(''toString'', JNum ''1'')])) = Inl TypeError"
    by (simp add: template_def)
  from sigint_cancels_upload [OF ex, of "Some (JStr ''key'')" sample_world,
         THEN conjunct1, rule_format, OF key ev]
  obtain spins where
    cancelled: "uploadToPixeldrain ?env (Some (JStr ''key'')) sample_world =
       (Exited 0,
        Request PIXELDRAIN_UPLOAD_URL (pixeldrain_headers (form_boundary ?env) ''key'')
          # spins @ [AbortRequest],
        during sample_world)"
    by blast
  from sigint_cancels_upload [OF sample_env_facts(1),
         of "Some (JObj [(''toString'', JNum ''1'')])" sample_world,
         THEN conjunct2, THEN conjunct1, rule_format, OF notext]
  have refused: "uploadToPixeldrain sample_env (Some (JObj [(''toString'', JNum ''1'')])) sample_world
       = (Exited 1, [], sample_world)" .
  have id: "template (js_get (JObj [(''id'', JStr ''abc123'')]) ''id'') = Inr ''abc123''"
    by (simp add: template_def)
  have ok: "outcome_of (uploadToPixeldrain sample_env (Some (JStr ''key'')) sample_world) = Returned"
    using uploadToPixeldrain_success [OF sample_env_facts(1) key sample_env_facts(2)
            sample_env_facts(3) _ id sample_env_facts(5)]
    by (simp add: outcome_of_def)
  from sigint_cancels_upload [OF sample_env_facts(1), of "Some (JStr ''key'')" sample_world,
         THEN conjunct2, THEN conjunct2, THEN conjunct1, rule_format, OF ok]
       sample_env_facts(6)
  have after: "sigint_listeners (world_of (uploadToPixeldrain sample_env (Some (JStr ''key'')) sample_world)) = []"
    "raise_sigint (sigint_listeners
         (world_of (uploadToPixeldrain sample_env (Some (JStr ''key'')) sample_world)))
       = ([], Killed)"
    by (simp_all add: raise_sigint_def)
  from cancelled refused after show ?thesis
    by (simp add: outcome_of_def trace_of_def world_of_def)
qed

section \<open>Anonymous upload and routing\<close>

text \<open>
  C5 as stated fails on one path. The claim: with no Pixeldrain API key stored, an
  upload routed to Pixeldrain fails with an error before any request. With no config
  file, a file of 11 GiB sent with the flag \<^verbatim>\<open>pd\<close> and the answer \<^verbatim>\<open>n\<close> to the size
  warning, \<^verbatim>\<open>uploadFile\<close> ends with \<^verbatim>\<open>process.exit(0)\<close>: the size warning (index.js
  1181-1219) comes before the key check (1222-1226).
\<close>

theorem declined_size_warning_exits_0:
  "getServiceCredentials ''t'' ''pixeldrain'' Missing = Inr (JNull, Missing)
   \<and> \<not> truthy_val (credentials_apiKey JNull)
   \<and> uploadFile uploadToGoogleDrive_unconfigured (sample_env\<lparr>file_size := 11811160064\<rparr>)
        ''t'' ''n'' ''big.bin'' (Some ''pd'') (sample_world\<lparr>config_file := Missing\<rparr>)
       = (Exited 0, [], sample_world\<lparr>config_file := Missing\<rparr>)"
proof -
  have cred: "getServiceCredentials ''t'' ''pixeldrain'' Missing = Inr (JNull, Missing)"
    by (simp add: getServiceCredentials_def loadConfig_def)
  have nokey: "\<not> truthy_val (credentials_apiKey JNull)"
    by (simp add: credentials_apiKey_def truthy_val_def)
  have answer: "toLowerCase ''n'' \<noteq> ''y''" "toLowerCase ''n'' \<noteq> ''yes''"
    by code_simp+
  have big: "file_exists (sample_env\<lparr>file_size := 11811160064\<rparr>)"
            "file_size (sample_env\<lparr>file_size := 11811160064\<rparr>) > 10 * (1024 * 1024 * 1024)"
    by (simp_all add: sample_env_def)
  have "uploadFile uploadToGoogleDrive_unconfigured (sample_env\<lparr>file_size := 11811160064\<rparr>)
        ''t'' ''n'' ''big.bin'' (Some ''pd'') (sample_world\<lparr>config_file := Missing\<rparr>)
       = (Exited 0, [], sample_world\<lparr>config_file := Missing\<rparr>)"
    using cred answer big
    by (simp add: uploadFile_def Let_def)
  with cred nokey show ?thesis by simp
qed

text \<open>
  C5, amended. Anonymous upload is supported by Gofile only. With no Pixeldrain API key
  stored, an upload routed to Pixeldrain makes no request and has no effect: the
  process exits with status 1, or with status 0 when the file exists, is larger than
  10 GiB and the user declines the size warning. An upload of an existing file routed
  to Gofile with no stored token (or a falsy one) makes exactly one request, which
  carries no \<^verbatim>\<open>Authorization\<close> header; with a stored token that is a non-empty string
  \<open>t\<close> (or any truthy token whose text is \<open>t\<close>) it makes exactly one request, which
  carries \<^verbatim>\<open>Authorization\<close> with the value \<^verbatim>\<open>Bearer\<close>, a space, and \<open>t\<close>. A stored
  token without a text (an object with a member named \<^verbatim>\<open>toString\<close>) makes the building
  of the header raise a TypeError: the process exits with status 1 and no request is
  made.
\<close>

theorem anonymous_upload_routing:
  assumes "filePath \<noteq> []"
  shows "(\<forall>c cf. getServiceCredentials now ''pixeldrain'' (config_file w) = Inr (c, cf) \<longrightarrow>
            \<not> truthy_val (credentials_apiKey c) \<longrightarrow>
            uploadFile drive env now answer filePath (Some ''pd'') w =
              ((if file_exists env \<and> file_size env > 10 * (1024 * 1024 * 1024)
                   \<and> toLowerCase answer \<noteq> ''y'' \<and> toLowerCase answer \<noteq> ''yes''
                then Exited 0 else Exited 1), [], w\<lparr>config_file := cf\<rparr>))
       \<and> (\<forall>c cf flag. getServiceCredentials now ''gofile'' (config_file w) = Inr (c, cf) \<longrightarrow>
            flag \<noteq> Some ''pd'' \<longrightarrow> flag \<noteq> Some ''gd'' \<longrightarrow> file_exists env \<longrightarrow>
              (\<not> truthy_val (credentials_apiKey c) \<longrightarrow>
                 (\<exists>rest. trace_of (uploadFile drive env now answer filePath flag w) =
                    Request ''https://upload.gofile.io/uploadfile''
                      [(''content-type'', ''multipart/form-data; boundary='' @ form_boundary env)]
                      # rest
                  \<and> \<not> list_ex is_request rest))
            \<and> (\<forall>t. truthy_val (credentials_apiKey c) \<longrightarrow>
                     template (credentials_apiKey c) = Inr t \<longrightarrow>
                 (\<exists>rest. trace_of (uploadFile drive env now answer filePath flag w) =
                    Request ''https://upload.gofile.io/uploadfile''
                      [(''content-type'', ''multipart/form-data; boundary='' @ form_boundary env),
                       (''Authorization'', ''Bearer '' @ t)]
                      # rest
                  \<and> \<not> list_ex is_request rest))
            \<and> (\<forall>e. truthy_val (credentials_apiKey c) \<longrightarrow>
                     template (credentials_apiKey c) = Inl e \<longrightarrow>
                   uploadFile drive env now answer filePath flag w
                     = (Exited 1, [], w\<lparr>config_file := cf\<rparr>)))
       \<and> (\<forall>t. t \<noteq> [] \<longrightarrow> truthy_val (Some (JStr t)) \<and> template (Some (JStr t)) = Inr t)"
proof (intro conjI allI impI)
  fix c cf
  assume "getServiceCredentials now ''pixeldrain'' (config_file w) = Inr (c, cf)"
     and "\<not> truthy_val (credentials_apiKey c)"
  with assms show "uploadFile drive env now answer filePath (Some ''pd'') w =
              ((if file_exists env \<and> file_size env > 10 * (1024 * 1024 * 1024)
                   \<and> toLowerCase answer \<noteq> ''y'' \<and> toLowerCase answer \<noteq> ''yes''
                then Exited 0 else Exited 1), [], w\<lparr>config_file := cf\<rparr>)"
    by (simp add: uploadFile_def Let_def)
next
  fix c cf flag
  assume cr: "getServiceCredentials now ''gofile'' (config_file w) = Inr (c, cf)"
     and fl: "flag \<noteq> Some ''pd''" "flag \<noteq> Some ''gd''" and ex: "file_exists env"
     and anon: "\<not> truthy_val (credentials_apiKey c)"
  from assms cr fl have run: "uploadFile drive env now answer filePath flag w =
      uploadToGofile env (credentials_apiKey c) (w\<lparr>config_file := cf\<rparr>)"
    by (simp add: uploadFile_def Let_def)
  from anon have b: "bearer (credentials_apiKey c) = Inr None" by (simp add: bearer_cases)
  from uploadToGofile_trace[OF ex b, of "w\<lparr>config_file := cf\<rparr>"]
  show "\<exists>rest. trace_of (uploadFile drive env now answer filePath flag w) =
                    Request ''https://upload.gofile.io/uploadfile''
                      [(''content-type'', ''multipart/form-data; boundary='' @ form_boundary env)]
                      # rest
                  \<and> \<not> list_ex is_request rest"
    unfolding run by (simp add: gofile_headers_def)
next
  fix c cf flag t
  assume cr: "getServiceCredentials now ''gofile'' (config_file w) = Inr (c, cf)"
     and fl: "flag \<noteq> Some ''pd''" "flag \<noteq> Some ''gd''" and ex: "file_exists env"
     and tok: "truthy_val (credentials_apiKey c)" "template (credentials_apiKey c) = Inr t"
  from assms cr fl have run: "uploadFile drive env now answer filePath flag w =
      uploadToGofile env (credentials_apiKey c) (w\<lparr>config_file := cf\<rparr>)"
    by (simp add: uploadFile_def Let_def)
  from tok have b: "bearer (credentials_apiKey c) = Inr (Some t)" by (simp add: bearer_cases)
  from uploadToGofile_trace[OF ex b, of "w\<lparr>config_file := cf\<rparr>"]
  show "\<exists>rest. trace_of (uploadFile drive env now answer filePath flag w) =
                    Request ''https://upload.gofile.io/uploadfile''
                      [(''content-type'', ''multipart/form-data; boundary='' @ form_boundary env),
                       (''Authorization'', ''Bearer '' @ t)]
                      # rest
                  \<and> \<not> list_ex is_request rest"
    unfolding run by (simp add: gofile_headers_def)
next
  fix c cf flag e
  assume cr: "getServiceCredentials now ''gofile'' (config_file w) = Inr (c, cf)"
     and fl: "flag \<noteq> Some ''pd''" "flag \<noteq> Some ''gd''"
     and tok: "truthy_val (credentials_apiKey c)" "template (credentials_apiKey c) = Inl e"
  from assms cr fl have run: "uploadFile drive env now answer filePath flag w =
      uploadToGofile env (credentials_apiKey c) (w\<lparr>config_file := cf\<rparr>)"
    by (simp add: uploadFile_def Let_def)
  from tok have b: "bearer (credentials_apiKey c) = Inl e" by (simp add: bearer_cases)
  from uploadToGofile_no_text[OF b]
  show "uploadFile drive env now answer filePath flag w = (Exited 1, [], w\<lparr>config_file := cf\<rparr>)"
    unfolding run by simp
next
  fix t :: string
  assume "t \<noteq> []"
  then show "truthy_val (Some (JStr t))" by (simp add: truthy_val_def)
  show "template (Some (JStr t)) = Inr t" by (rule template_string)
qed

theorem anonymous_upload_routing_witness:
  "uploadFile uploadToGoogleDrive_unconfigured sample_env ''t'' ''n'' ''a.bin'' (Some ''pd'')
       (sample_world\<lparr>config_file := Missing\<rparr>)
     = (Exited 1, [], sample_world\<lparr>config_file := Missing\<rparr>)
   \<and> (\<exists>rest. trace_of (uploadFile uploadToGoogleDrive_unconfigured sample_env ''t'' ''n''
                         ''a.bin'' (Some ''gf'') (sample_world\<lparr>config_file := Missing\<rparr>)) =
          Request ''https://upload.gofile.io/uploadfile''
            [(''content-type'', ''multipart/form-data; boundary=b0'')] # rest
        \<and> \<not> list_ex is_request rest)
   \<and> (\<exists>rest. trace_of (uploadFile uploadToGoogleDrive_unconfigured sample_env ''t'' ''n''
                         ''a.bin'' None sample_world) =
          Request ''https://upload.gofile.io/uploadfile''
            [(''content-type'', ''multipart/form-data; boundary=b0''),
             (''Authorization'', ''Bearer tok'')] # rest
        \<and> \<not> list_ex is_request rest)"
proof -
  have path: "''a.bin'' \<noteq> []" by simp
  have none: "getServiceCredentials ''t'' ''pixeldrain''
                (config_file (sample_world\<lparr>config_file := Missing\<rparr>)) = Inr (JNull, Missing)"
             "getServiceCredentials ''t'' ''gofile''
                (config_file (sample_world\<lparr>config_file := Missing\<rparr>)) = Inr (JNull, Missing)"
    by (simp_all add: getServiceCredentials_def loadConfig_def)
  have nokey: "\<not> truthy_val (credentials_apiKey JNull)"
    by (simp add: credentials_apiKey_def truthy_val_def)
  have stored: "getServiceCredentials ''t'' ''gofile'' (config_file sample_world) =
                  Inr (JObj [(''apiKey'', JStr ''tok''), (''updatedAt'', JStr ''t0'')], sample_config)"
    by (simp add: getServiceCredentials_def loadConfig_def sample_world_def sample_config_def)
  have key: "truthy_val (credentials_apiKey (JObj [(''apiKey'', JStr ''tok''), (''updatedAt'', JStr ''t0'')]))"
            "template (credentials_apiKey (JObj [(''apiKey'', JStr ''tok''), (''updatedAt'', JStr ''t0'')]))
               = Inr ''tok''"
    by (simp_all add: credentials_apiKey_def truthy_val_def template_def)
  have small: "\<not> file_size sample_env > 10 * (1024 * 1024 * 1024)"
    by (simp add: sample_env_def)
  note a = anonymous_upload_routing [OF path, of "''t''" "sample_world\<lparr>config_file := Missing\<rparr>"
             uploadToGoogleDrive_unconfigured sample_env "''n''"]
  note b = anonymous_upload_routing [OF path, of "''t''" sample_world
             uploadToGoogleDrive_unconfigured sample_env "''n''"]
  have flags: "Some ''gf'' \<noteq> Some ''pd''" "Some ''gf'' \<noteq> Some ''gd''"
              "(None :: string option) \<noteq> Some ''pd''" "(None :: string option) \<noteq> Some ''gd''"
    by simp_all
  from a [THEN conjunct1, rule_format, OF none(1) nokey] small
  have one: "uploadFile uploadToGoogleDrive_unconfigured sample_env ''t'' ''n'' ''a.bin'' (Some ''pd'')
       (sample_world\<lparr>config_file := Missing\<rparr>)
     = (Exited 1, [], sample_world\<lparr>config_file := Missing\<rparr>)"
    by (simp add: sample_world_def)
  from a [THEN conjunct2, THEN conjunct1, rule_format, OF none(2) flags(1) flags(2) sample_env_facts(1),
          THEN conjunct1, rule_format, OF nokey]
  have two: "\<exists>rest. trace_of (uploadFile uploadToGoogleDrive_unconfigured sample_env ''t'' ''n''
                         ''a.bin'' (Some ''gf'') (sample_world\<lparr>config_file := Missing\<rparr>)) =
          Request ''https://upload.gofile.io/uploadfile''
            [(''content-type'', ''multipart/form-data; boundary=b0'')] # rest
        \<and> \<not> list_ex is_request rest"
    by (simp add: sample_env_facts(4))
  from b [THEN conjunct2, THEN conjunct1, rule_format, OF stored flags(3) flags(4) sample_env_facts(1),
          THEN conjunct2, THEN conjunct1, rule_format, OF key]
  have three: "\<exists>rest. trace_of (uploadFile uploadToGoogleDrive_unconfigured sample_env ''t'' ''n''
                         ''a.bin'' None sample_world) =
          Request ''https://upload.gofile.io/uploadfile''
            [(''content-type'', ''multipart/form-data; boundary=b0''),
             (''Authorization'', ''Bearer tok'')] # rest
        \<and> \<not> list_ex is_request rest"
    by (simp add: sample_env_facts(4))
  from one two three show ?thesis by (intro conjI)
qed

end
